theory Spec2Isabelle
  imports Main "HOL-Library.Word" "HOL-Library.Signed_Division"
begin

section \<open>A read-only ext2 driver (ext2.c, ext2fs.c)\<close>

text \<open>
  The theory embeds the C functions of \<^verbatim>\<open>src/ext2.c\<close> and the read callback of
  \<^verbatim>\<open>src/ext2fs.c\<close>. Conventions:
  \<^item> C's fixed-width unsigned integers are words; a conversion the C compiler inserts is
    written out (\<open>ucast\<close> zero-extends or truncates, \<open>scast\<close> sign-extends). The
    platform is the one the driver is built for: \<^verbatim>\<open>int\<close> has 32 bits,
    \<^verbatim>\<open>off_t\<close>, \<^verbatim>\<open>size_t\<close> and \<^verbatim>\<open>ssize_t\<close> have 64, and memory is
    little-endian;
  \<^item> an object in memory (a struct, a local, an output buffer) is the list of its bytes,
    and a field is read at its byte offset, little-endian;
  \<^item> a function that can trap (integer division by zero), read outside an object or
    through a freed pointer, or loop forever returns an \<open>option\<close>: \<open>None\<close> means
    that the call has no defined result;
  \<^item> a nullable pointer argument is an \<open>option\<close> as well: \<open>None\<close> is \<^verbatim>\<open>NULL\<close>;
  \<^item> every function returns, next to its C result and the contents of the memory it
    was given to fill, the list of events it caused, oldest first.
\<close>

subsection \<open>Bytes and little-endian fields\<close>

type_synonym byte = "8 word"
type_synonym u16 = "16 word"
type_synonym u32 = "32 word"
type_synonym u64 = "64 word"
type_synonym bytes = "byte list"

definition le16 :: "bytes \<Rightarrow> nat \<Rightarrow> u16" where
  "le16 m p = word_of_nat (unat (m ! p) + 256 * unat (m ! (p + 1)))"

definition le32 :: "bytes \<Rightarrow> nat \<Rightarrow> u32" where
  "le32 m p = word_of_nat (unat (m ! p) + 256 * unat (m ! (p + 1))
                + 65536 * unat (m ! (p + 2)) + 16777216 * unat (m ! (p + 3)))"

definition bytes_of_u16 :: "u16 \<Rightarrow> bytes" where
  "bytes_of_u16 w = [ucast w, ucast (drop_bit 8 w)]"

definition bytes_of_u32 :: "u32 \<Rightarrow> bytes" where
  "bytes_of_u32 w = [ucast w, ucast (drop_bit 8 w), ucast (drop_bit 16 w), ucast (drop_bit 24 w)]"

text \<open>A C string held in memory: the bytes before the first NUL.\<close>

definition c_string :: "bytes \<Rightarrow> bytes" where
  "c_string m = takeWhile (\<lambda>b. b \<noteq> 0) m"

subsection \<open>The backing storage and \<^verbatim>\<open>pread\<close>\<close>

text \<open>
  The volume file is its contents, and a flag for a device on which every positioned
  read fails (\<^verbatim>\<open>pread\<close> returns -1 and leaves the destination as it was). A read
  that reaches the end of the file is short; one that starts at or after the end
  transfers nothing and returns 0.
\<close>

record device =
  dev_data :: bytes
  dev_error :: bool

datatype event =
    Pread nat nat          \<comment> \<open>a positioned read of the volume file: offset, byte count\<close>
  | Visit bytes u32        \<comment> \<open>a call of the directory visitor: name, inode number\<close>

text \<open>
  \<open>overwrite dst src\<close> is the destination after \<open>src\<close> has been stored at its start.
  Bytes stored past the end of the destination object are kept at the end of the list.
\<close>

definition overwrite :: "bytes \<Rightarrow> bytes \<Rightarrow> bytes" where
  "overwrite dst src = src @ drop (length src) dst"

definition pread :: "device \<Rightarrow> bytes \<Rightarrow> nat \<Rightarrow> nat \<Rightarrow> int \<times> bytes" where
  "pread dev buf count pos =
     (if dev_error dev then (- 1, buf)
      else let got = take count (drop pos (dev_data dev))
           in (int (length got), overwrite buf got))"

subsection \<open>The structures of ext2.h\<close>

text \<open>
  Modelled from the spec: the header ext2.h with the declarations of
  \<^verbatim>\<open>volume_t\<close>, \<^verbatim>\<open>superblock_t\<close>, \<^verbatim>\<open>group_desc_t\<close>, \<^verbatim>\<open>inode_t\<close>,
  \<^verbatim>\<open>dir_entry_t\<close>, of the magic constant and of \<^verbatim>\<open>inode_file_size\<close> is not
  among the sources. The packed records are the ext2 on-disk records the spec describes
  (section 3), with the field offsets and the magic number of the format; the field names
  are the ones ext2.c and ext2fs.c use. The block size is an unsigned 32-bit field, as the
  arguments of \<^verbatim>\<open>read_block\<close> are. Only the fields that the modelled functions read,
  and the magic field, have an accessor.
\<close>

type_synonym superblock_t = bytes
type_synonym group_desc_t = bytes
type_synonym inode_t = bytes
type_synonym dir_entry_t = bytes

definition s_blocks_count :: "superblock_t \<Rightarrow> u32" where
  "s_blocks_count sb = le32 sb 4"

definition s_log_block_size :: "superblock_t \<Rightarrow> u32" where
  "s_log_block_size sb = le32 sb 24"

definition s_blocks_per_group :: "superblock_t \<Rightarrow> u32" where
  "s_blocks_per_group sb = le32 sb 32"

definition s_inodes_per_group :: "superblock_t \<Rightarrow> u32" where
  "s_inodes_per_group sb = le32 sb 40"

definition s_magic :: "superblock_t \<Rightarrow> u16" where
  "s_magic sb = le16 sb 56"

definition s_inode_size :: "superblock_t \<Rightarrow> u16" where
  "s_inode_size sb = le16 sb 88"

definition EXT2_SUPER_MAGIC :: u16 where
  "EXT2_SUPER_MAGIC = 0xEF53"

definition bg_inode_table :: "group_desc_t \<Rightarrow> u32" where
  "bg_inode_table gd = le32 gd 8"

definition i_size :: "inode_t \<Rightarrow> u32" where
  "i_size inode = le32 inode 4"

definition i_block :: "inode_t \<Rightarrow> nat \<Rightarrow> u32" where
  "i_block inode k = le32 inode (40 + 4 * k)"

definition i_block_1ind :: "inode_t \<Rightarrow> u32" where
  "i_block_1ind inode = le32 inode 88"

definition i_block_2ind :: "inode_t \<Rightarrow> u32" where
  "i_block_2ind inode = le32 inode 92"

definition i_block_3ind :: "inode_t \<Rightarrow> u32" where
  "i_block_3ind inode = le32 inode 96"

definition de_inode_no :: "dir_entry_t \<Rightarrow> u32" where
  "de_inode_no e = le32 e 0"

definition de_rec_len :: "dir_entry_t \<Rightarrow> u16" where
  "de_rec_len e = le16 e 4"

definition de_name :: "dir_entry_t \<Rightarrow> bytes" where
  "de_name e = c_string (drop 8 e)"

text \<open>
  A pointer to a heap block: either the block is live and has the given contents, or it
  has been handed back to the allocator with \<^verbatim>\<open>free\<close>.
\<close>

datatype 'a heap_ptr = Live 'a | Freed

record volume_t =
  fd :: device
  block_size :: u32
  volume_size :: u64
  num_groups :: u32
  super :: superblock_t
  groups :: "group_desc_t list heap_ptr"

text \<open>
  Modelled from the spec: \<^verbatim>\<open>inode_file_size\<close> is declared in ext2.h; by section 3
  of the spec the byte size of a file is the low half \<^verbatim>\<open>i_size\<close> alone.
\<close>

definition inode_file_size :: "volume_t \<Rightarrow> inode_t \<Rightarrow> u64" where
  "inode_file_size volume inode = ucast (i_size inode)"

definition EXT2_OFFSET_SUPERBLOCK :: nat where
  "EXT2_OFFSET_SUPERBLOCK = 1024"

definition EXT2_INVALID_BLOCK_NUMBER :: u32 where
  "EXT2_INVALID_BLOCK_NUMBER = - 1"

subsection \<open>Locals that are read before they are written\<close>

text \<open>
  Several functions declare a local, pass its address to a read and use it whatever the
  read returned. What such a local holds before the read is not determined by the
  program; it is a parameter of the model, one field for each of these locals.
\<close>

record indet =
  blockNum0 :: u32             \<comment> \<open>\<^verbatim>\<open>blockNum\<close> of read_ind_block_entry\<close>
  firstSize0 :: u16            \<comment> \<open>\<^verbatim>\<open>firstSize\<close> of follow_directory_entries\<close>
  newDirEntry0 :: dir_entry_t  \<comment> \<open>\<^verbatim>\<open>newDirEntry\<close> of follow_directory_entries\<close>
  currInode0 :: inode_t        \<comment> \<open>\<^verbatim>\<open>currInode\<close> of find_file_from_path and ext2_read\<close>
  currDir0 :: dir_entry_t      \<comment> \<open>\<^verbatim>\<open>currDir\<close> of find_file_from_path\<close>

subsection \<open>ext2.c: blocks\<close>

text \<open>
  \<^verbatim>\<open>read_block\<close> (lines 106-109). The file position
  \<^verbatim>\<open>(volume->block_size * block_no) + offset\<close> is computed on 32 bits.
\<close>

definition read_block :: "volume_t \<Rightarrow> u32 \<Rightarrow> u32 \<Rightarrow> u32 \<Rightarrow> bytes \<Rightarrow> int \<times> bytes \<times> event list" where
  "read_block volume block_no offset sz buffer =
     (let pos = unat (block_size volume * block_no + offset);
          (rv, buffer') = pread (fd volume) buffer (unat sz) pos
      in (rv, buffer', [Pread pos (unat sz)]))"

text \<open>
  \<^verbatim>\<open>read_ind_block_entry\<close> (lines 149-165). The result of \<^verbatim>\<open>read_block\<close> is
  dropped; the test \<^verbatim>\<open>blockNum < 0\<close> compares an unsigned 32-bit value with 0.
\<close>

definition read_ind_block_entry :: "volume_t \<Rightarrow> indet \<Rightarrow> u32 \<Rightarrow> u32 \<Rightarrow> u32 \<times> event list" where
  "read_ind_block_entry volume u ind_block_no index =
     (let (rv, mem, tr) = read_block volume ind_block_no (index * 4) 4 (bytes_of_u32 (blockNum0 u));
          blockNum = le32 mem 0
      in if blockNum < 0 then (EXT2_INVALID_BLOCK_NUMBER, tr)
         else (blockNum, tr))"

text \<open>
  \<^verbatim>\<open>get_inode_block_no\<close> (lines 183-230). The bounds of the tiers are computed on
  32 bits from \<^verbatim>\<open>volume->block_size / 4\<close> and widened for the comparison with the
  64-bit index; the indices handed to \<^verbatim>\<open>read_ind_block_entry\<close> are computed on 64
  bits and truncated to 32. A division or remainder by zero traps.
\<close>

definition get_inode_block_no :: "volume_t \<Rightarrow> indet \<Rightarrow> inode_t \<Rightarrow> u64 \<Rightarrow> (u32 \<times> event list) option" where
  "get_inode_block_no volume u inode block_idx =
     (let bs = block_size volume in
      if block_idx < 12 then Some (i_block inode (unat block_idx), [])
      else if block_idx < ucast (bs div 4 + 12) then
        (let newIndex = (ucast (block_idx - 12) :: u32);
             (returnValue, tr) = read_ind_block_entry volume u (i_block_1ind inode) newIndex
         in Some (returnValue, tr))
      else if block_idx < ucast (12 + (bs div 4 + 1) * (bs div 4)) then
        (if bs div 4 = 0 then None
         else
           let (indBlockNo, t1) = read_ind_block_entry volume u (i_block_2ind inode)
                  (ucast ((block_idx - ucast (bs div 4) + 12) div ucast (bs div 4)));
               (r, t2) = read_ind_block_entry volume u indBlockNo
                  (ucast ((block_idx - ucast (bs div 4 + 12)) mod ucast (bs div 4)))
           in Some (r, t1 @ t2))
      else if block_idx < ucast (((bs div 4 + 1) * (bs div 4) + 1) * (bs div 4) + 12) then
        (if (bs div 4) * (bs div 4) = 0 \<or> bs * bs = 0 \<or> bs div 4 = 0 then None
         else
           let (indBlockNo2, t1) = read_ind_block_entry volume u (i_block_3ind inode)
                  (ucast ((block_idx - ucast (12 + (bs div 4 + 1) * (bs div 4)))
                            div ucast ((bs div 4) * (bs div 4))));
               (indBlockNo1, t2) = read_ind_block_entry volume u indBlockNo2
                  (ucast (((block_idx - ucast (12 + (bs div 4 + 1) * (bs div 4)))
                             mod ucast ((bs div 4) * (bs div 4))) div ucast (bs * bs)));
               initialFactor = (ucast ((block_idx - ucast (12 + (bs div 4 + 1) * (bs div 4)))
                                         mod ucast ((bs div 4) * (bs div 4))) :: u32);
               thirdIndirectFactor = initialFactor mod (bs div 4);
               (r, t3) = read_ind_block_entry volume u indBlockNo1 thirdIndirectFactor
           in Some (r, t1 @ t2 @ t3))
      else Some (EXT2_INVALID_BLOCK_NUMBER, []))"

subsection \<open>ext2.c: file contents\<close>

text \<open>
  \<^verbatim>\<open>read_file_block\<close> (lines 247-272). The block index is the quotient cast to
  \<^verbatim>\<open>int\<close> and widened again to 64 bits; the division traps on a block size of 0.
\<close>

definition read_file_block :: "volume_t \<Rightarrow> indet \<Rightarrow> inode_t \<Rightarrow> u64 \<Rightarrow> u64 \<Rightarrow> bytes \<Rightarrow> (int \<times> bytes \<times> event list) option" where
  "read_file_block volume u inode offset max_size buffer =
     (if block_size volume = 0 then None
      else
        let blockIndex = (scast (ucast (offset div ucast (block_size volume)) :: u32) :: u64)
        in Option.bind (get_inode_block_no volume u inode blockIndex) (\<lambda>(blockNo, t1).
             let blockOffset = (ucast (offset mod ucast (block_size volume)) :: u32);
                 sz = (if (ucast (block_size volume - blockOffset) :: u64) < max_size
                       then block_size volume - blockOffset
                       else ucast max_size);
                 (rv, buffer', t2) = read_block volume blockNo blockOffset sz buffer
             in Some (rv, buffer', t1 @ t2)))"

text \<open>
  The loop of \<^verbatim>\<open>read_file_content\<close> (lines 297-303). \<^verbatim>\<open>read_so_far\<close> is an
  unsigned 32-bit counter, \<^verbatim>\<open>rv\<close> an \<^verbatim>\<open>int\<close>; \<^verbatim>\<open>buffer + read_so_far\<close> is
  the part of the buffer from that position on. The loop may run forever.
\<close>

partial_function (option) read_file_content_loop ::
  "volume_t \<Rightarrow> indet \<Rightarrow> inode_t \<Rightarrow> u64 \<Rightarrow> u64 \<Rightarrow> u32 \<Rightarrow> bytes \<Rightarrow> event list \<Rightarrow> (int \<times> bytes \<times> event list) option" where
  "read_file_content_loop volume u inode offset max_size read_so_far buffer tr =
     (if ucast read_so_far < max_size then
        Option.bind (read_file_block volume u inode (offset + ucast read_so_far) (max_size - ucast read_so_far)
                       (drop (unat read_so_far) buffer))
          (\<lambda>(r, mem, t).
             let rv = sint (word_of_int r :: 32 word);
                 buffer' = take (unat read_so_far) buffer @ mem
             in if rv \<le> 0 then Some (rv, buffer', tr @ t)
                else read_file_content_loop volume u inode offset max_size
                       (read_so_far + word_of_int rv) buffer' (tr @ t))
      else Some (uint read_so_far, buffer, tr))"

text \<open>The clamp of \<^verbatim>\<open>read_file_content\<close> (lines 294-295), on unsigned 64 bits.\<close>

definition clamp_max_size :: "volume_t \<Rightarrow> inode_t \<Rightarrow> u64 \<Rightarrow> u64 \<Rightarrow> u64" where
  "clamp_max_size volume inode offset max_size =
     (if offset + max_size > inode_file_size volume inode
      then inode_file_size volume inode - offset
      else max_size)"

text \<open>\<^verbatim>\<open>read_file_content\<close> (lines 290-304).\<close>

definition read_file_content :: "volume_t \<Rightarrow> indet \<Rightarrow> inode_t \<Rightarrow> u64 \<Rightarrow> u64 \<Rightarrow> bytes \<Rightarrow> (int \<times> bytes \<times> event list) option" where
  "read_file_content volume u inode offset max_size buffer =
     read_file_content_loop volume u inode offset (clamp_max_size volume inode offset max_size) 0 buffer []"

subsection \<open>ext2.c: directories\<close>

text \<open>
  The \<^verbatim>\<open>for\<close> loop of \<^verbatim>\<open>follow_directory_entries\<close> (lines 350-358).
  \<^verbatim>\<open>offset\<close> is an \<^verbatim>\<open>int\<close>: it is compared with the unsigned \<^verbatim>\<open>i_size\<close> as
  an unsigned value and sign-extended where it is passed as a 64-bit offset. The visitor
  is called before the buffer pointer is tested. A record length of 0 makes the loop run
  forever.
\<close>

partial_function (option) follow_directory_entries_loop ::
  "volume_t \<Rightarrow> indet \<Rightarrow> inode_t \<Rightarrow> 'c \<Rightarrow> dir_entry_t option \<Rightarrow> (bytes \<Rightarrow> u32 \<Rightarrow> 'c \<Rightarrow> int)
     \<Rightarrow> u32 \<Rightarrow> dir_entry_t \<Rightarrow> event list \<Rightarrow> (u32 \<times> dir_entry_t option \<times> event list) option" where
  "follow_directory_entries_loop volume u inode context buffer f offset newDirEntry tr =
     (if offset < i_size inode then
        Option.bind (read_file_block volume u inode (scast offset) (ucast (de_rec_len newDirEntry)) newDirEntry)
          (\<lambda>(rv1, e1, t1).
        Option.bind (read_file_block volume u inode (scast offset) (ucast (de_rec_len e1)) e1)
          (\<lambda>(rv2, e2, t2).
             let tr' = tr @ t1 @ t2 @ [Visit (de_name e2) (de_inode_no e2)]
             in if f (de_name e2) (de_inode_no e2) context \<noteq> 0 \<and> buffer \<noteq> None
                then Some (de_inode_no e2, Some e2, tr')
                else follow_directory_entries_loop volume u inode context buffer f
                       (offset + ucast (de_rec_len e2)) e2 tr'))
      else Some (0, buffer, tr))"

text \<open>\<^verbatim>\<open>follow_directory_entries\<close> (lines 333-360).\<close>

definition follow_directory_entries ::
  "volume_t \<Rightarrow> indet \<Rightarrow> inode_t \<Rightarrow> 'c \<Rightarrow> dir_entry_t option \<Rightarrow> (bytes \<Rightarrow> u32 \<Rightarrow> 'c \<Rightarrow> int)
     \<Rightarrow> (u32 \<times> dir_entry_t option \<times> event list) option" where
  "follow_directory_entries volume u inode context buffer f =
     Option.bind (read_file_block volume u inode 4 2 (bytes_of_u16 (firstSize0 u)))
       (\<lambda>(rv1, mem, t1).
          let firstSize = le16 mem 0
          in Option.bind (read_file_block volume u inode 0 (ucast firstSize) (newDirEntry0 u))
               (\<lambda>(rv2, newDirEntry, t2).
                  let tr = t1 @ t2 @ [Visit (de_name newDirEntry) (de_inode_no newDirEntry)]
                  in if f (de_name newDirEntry) (de_inode_no newDirEntry) context \<noteq> 0 \<and> buffer \<noteq> None
                     then Some (de_inode_no newDirEntry, Some newDirEntry, tr)
                     else follow_directory_entries_loop volume u inode context buffer f
                            (ucast firstSize) newDirEntry tr))"

text \<open>\<^verbatim>\<open>compare_file_name\<close> (lines 363-365): \<^verbatim>\<open>!strcmp(name, context)\<close>.\<close>

definition compare_file_name :: "bytes \<Rightarrow> u32 \<Rightarrow> bytes \<Rightarrow> int" where
  "compare_file_name name inode_no context = (if c_string name = c_string context then 1 else 0)"

text \<open>\<^verbatim>\<open>find_file_in_directory\<close> (lines 386-389).\<close>

definition find_file_in_directory ::
  "volume_t \<Rightarrow> indet \<Rightarrow> inode_t \<Rightarrow> bytes \<Rightarrow> dir_entry_t option \<Rightarrow> (u32 \<times> dir_entry_t option \<times> event list) option" where
  "find_file_in_directory volume u inode name buffer =
     follow_directory_entries volume u inode name buffer compare_file_name"

subsection \<open>ext2.c: inodes and paths\<close>

text \<open>
  \<^verbatim>\<open>read_inode\<close> (lines 126-134). The group number is an \<^verbatim>\<open>int\<close> that indexes
  the descriptor table; a division by zero traps, and an index outside the table, or
  into a table that has been freed, has no defined value.
\<close>

definition read_inode :: "volume_t \<Rightarrow> u32 \<Rightarrow> inode_t \<Rightarrow> (int \<times> inode_t \<times> event list) option" where
  "read_inode volume inode_no buffer =
     (if s_inodes_per_group (super volume) = 0 then None
      else
        let blockGroup = sint ((inode_no - 1) div s_inodes_per_group (super volume));
            inodeIndex = (inode_no - 1) mod s_inodes_per_group (super volume)
        in case groups volume of
             Freed \<Rightarrow> None
           | Live table \<Rightarrow>
               if blockGroup < 0 \<or> int (length table) \<le> blockGroup then None
               else Some (read_block volume (bg_inode_table (table ! nat blockGroup))
                            (inodeIndex * ucast (s_inode_size (super volume)))
                            (ucast (s_inode_size (super volume))) buffer))"

text \<open>A character of a NUL-terminated string: the terminator follows the last byte.\<close>

definition cstr_nth :: "bytes \<Rightarrow> nat \<Rightarrow> byte" where
  "cstr_nth s i = (if i < length s then s ! i else 0)"

text \<open>
  The \<^verbatim>\<open>for\<close> loop of \<^verbatim>\<open>find_file_from_path\<close> (lines 434-472) over the
  positions \<open>i\<close> of the path, with the locals it updates. Both \<^verbatim>\<open>break\<close>
  statements leave the loop with the locals as they are. \<^verbatim>\<open>currDir\<close> is the buffer
  handed to \<^verbatim>\<open>find_file_in_directory\<close>.
\<close>

function find_file_from_path_loop ::
  "volume_t \<Rightarrow> indet \<Rightarrow> bytes \<Rightarrow> nat \<Rightarrow> nat \<Rightarrow> nat \<Rightarrow> inode_t \<Rightarrow> dir_entry_t \<Rightarrow> event list
     \<Rightarrow> (inode_t \<times> dir_entry_t \<times> event list) option" where
  "find_file_from_path_loop volume u path i nameStart nameIndex currInode currDir tr =
     (if cstr_nth path (i - 1) \<noteq> 0 then
        (if cstr_nth path i = of_char CHR ''/'' \<or> cstr_nth path i = 0 then
           (if nameStart = nameIndex then Some (currInode, currDir, tr)
            else
              let currName = take (nameIndex - nameStart) (drop nameStart path)
              in Option.bind (find_file_in_directory volume u currInode currName (Some currDir))
                   (\<lambda>(currInodeNum, buffer, t1).
                      let currDir' = (case buffer of Some e \<Rightarrow> e | None \<Rightarrow> currDir)
                      in if currInodeNum = 0 then Some (currInode, currDir', tr @ t1)
                         else Option.bind (read_inode volume currInodeNum currInode)
                                (\<lambda>(rv, currInode', t2).
                                   find_file_from_path_loop volume u path (i + 1) (i + 1) (i + 1)
                                     currInode' currDir' (tr @ t1 @ t2))))
         else find_file_from_path_loop volume u path (i + 1) nameStart (nameIndex + 1) currInode currDir tr)
      else Some (currInode, currDir, tr))"
  by pat_completeness auto
termination
  by (relation "measure (\<lambda>(volume, u, path, i, rest). Suc (length path) - i)")
     (auto simp: cstr_nth_def split: if_splits)

text \<open>
  \<^verbatim>\<open>find_file_from_path\<close> (lines 410-477). \<^verbatim>\<open>dest_inode\<close> is the caller's inode
  object; it is left as it was when the path does not start with a slash.
\<close>

definition find_file_from_path ::
  "volume_t \<Rightarrow> indet \<Rightarrow> bytes \<Rightarrow> inode_t \<Rightarrow> (u32 \<times> inode_t \<times> event list) option" where
  "find_file_from_path volume u path dest_inode =
     (if cstr_nth path 0 = of_char CHR ''/'' then
        (case groups volume of
           Freed \<Rightarrow> None
         | Live [] \<Rightarrow> None
         | Live (g0 # _) \<Rightarrow>
             let (rv, currInode, t0) =
                   read_block volume (bg_inode_table g0) (ucast (s_inode_size (super volume)))
                     (ucast (s_inode_size (super volume))) (currInode0 u);
                 currInodeNum = (2 :: u32);
                 currDir = overwrite (currDir0 u) (bytes_of_u32 currInodeNum)
             in Option.bind (find_file_from_path_loop volume u path 1 1 1 currInode currDir t0)
                  (\<lambda>(currInode', currDir', tr). Some (de_inode_no currDir', currInode', tr)))
      else Some (0, dest_inode, []))"

subsection \<open>ext2.c: opening a volume\<close>

text \<open>
  \<^verbatim>\<open>open_volume_file\<close> (lines 31-71). The files that can be opened are a map from
  names to devices. The outer \<open>option\<close> is the trap of the division by
  \<^verbatim>\<open>s_blocks_per_group\<close>, the inner one the returned pointer. The shift that gives
  the block size is taken on 32 bits. The descriptor is read at line 61 into a block of
  its own, line 66 stores the address of that block in \<^verbatim>\<open>volume->groups\<close>, and
  line 68 frees the block before the volume is returned: the returned volume holds a
  pointer to a freed block, whatever the descriptor read was.
\<close>

definition open_volume_file :: "(string \<rightharpoonup> device) \<Rightarrow> string \<Rightarrow> (volume_t option \<times> event list) option" where
  "open_volume_file files filename =
     (case files filename of
        None \<Rightarrow> Some (None, [])
      | Some dev \<Rightarrow>
          let (superRead, newSuperBlock) = pread dev [] 204 1024;
              t1 = [Pread 1024 204]
          in if superRead \<noteq> 204 then Some (None, t1)
             else if s_blocks_per_group newSuperBlock = 0 then None
             else
               let bs = (push_bit (unat (s_log_block_size newSuperBlock)) 1024 :: u32);
                   vs = (ucast (bs * s_blocks_count newSuperBlock) :: u64);
                   ng = s_blocks_count newSuperBlock div s_blocks_per_group newSuperBlock
                        + (if s_blocks_count newSuperBlock mod s_blocks_per_group newSuperBlock \<noteq> 0
                           then 1 else 0);
                   (groupRead, newGroupDesc) = pread dev [] 32 (unat (1024 + bs));
                   t2 = t1 @ [Pread (unat (1024 + bs)) 32]
               in if groupRead \<noteq> 32 then Some (None, t2)
                  else Some (Some \<lparr> fd = dev, block_size = bs, volume_size = vs, num_groups = ng,
                                     super = newSuperBlock, groups = Freed \<rparr>, t2))"

subsection \<open>ext2fs.c: the read callback\<close>

text \<open>
  \<^verbatim>\<open>ext2_read\<close> (lines 289-302) on the mounted volume. \<open>fh\<close> is the file handle
  \<^verbatim>\<open>fi->fh\<close>, \<open>offset\<close> a signed 64-bit \<^verbatim>\<open>off_t\<close>, and the quotient
  \<^verbatim>\<open>offset / volume->block_size\<close> a signed division. The offset and the size are
  truncated to the 32-bit parameters of \<^verbatim>\<open>read_block\<close>, its result to \<^verbatim>\<open>int\<close>.
\<close>

definition ext2_read :: "volume_t \<Rightarrow> indet \<Rightarrow> u64 \<Rightarrow> bytes \<Rightarrow> u64 \<Rightarrow> u64 \<Rightarrow> (int \<times> bytes \<times> event list) option" where
  "ext2_read volume u fh buf sz offset =
     Option.bind (read_inode volume (ucast fh) (currInode0 u)) (\<lambda>(rv0, currInode, t0).
       if block_size volume = 0 then None
       else
         Option.bind (get_inode_block_no volume u currInode
                        (word_of_int (sint offset sdiv uint (block_size volume))))
           (\<lambda>(blockNo, t1).
              let (rv, buf', t2) = read_block volume blockNo (ucast offset) (ucast sz) buf
              in Some (sint (word_of_int rv :: 32 word), buf', t0 @ t1 @ t2)))"

subsection \<open>A small volume image\<close>

text \<open>
  A volume of ten blocks of 1024 bytes, for evaluating the functions: block 0 is the boot
  block, block 1 the superblock (with the two bytes of its magic field as parameters),
  block 2 the group descriptor, blocks 3 and 4 the inode table of 16 inodes of 128 bytes,
  block 5 the root directory with the entries \<^verbatim>\<open>.\<close> (inode 2) and \<^verbatim>\<open>f\<close> (inode 12),
  block 6 the data of the file \<^verbatim>\<open>f\<close>, block 7 a double-indirect block whose first two
  entries are the indirect blocks 8 and 9.
\<close>

definition block :: "bytes \<Rightarrow> bytes" where
  "block xs = xs @ replicate (1024 - length xs) 0"

definition demo_superblock :: "byte \<Rightarrow> byte \<Rightarrow> superblock_t" where
  "demo_superblock m0 m1 =
     [16, 0, 0, 0] @ [10, 0, 0, 0] @ replicate 16 0 @ [0, 0, 0, 0] @ replicate 4 0
     @ [0, 32, 0, 0] @ replicate 4 0 @ [16, 0, 0, 0] @ replicate 12 0 @ [m0, m1]
     @ replicate 30 0 @ [128, 0] @ replicate 114 0"

definition demo_group_desc :: group_desc_t where
  "demo_group_desc = replicate 8 0 @ [3, 0, 0, 0] @ replicate 20 0"

text \<open>An inode record from its byte size, its first two direct slots and its double-indirect slot.\<close>

definition demo_inode :: "byte list \<Rightarrow> byte \<Rightarrow> byte \<Rightarrow> byte \<Rightarrow> inode_t" where
  "demo_inode sz b0 b1 ind2 =
     replicate 4 0 @ sz @ replicate 32 0 @ [b0, 0, 0, 0] @ [b1, 0, 0, 0] @ replicate 44 0
     @ [ind2, 0, 0, 0] @ replicate 32 0"

definition root_inode :: inode_t where        \<comment> \<open>inode 2: the root directory, 24 bytes in block 5\<close>
  "root_inode = demo_inode [24, 0, 0, 0] 5 0 0"

definition file_inode :: inode_t where        \<comment> \<open>inode 12: a file of 4 bytes in block 6\<close>
  "file_inode = demo_inode [4, 0, 0, 0] 6 0 0"

definition sparse_inode :: inode_t where      \<comment> \<open>inode 13: a file of 1024 bytes that is one hole\<close>
  "sparse_inode = demo_inode [0, 4, 0, 0] 0 0 0"

definition large_inode :: inode_t where       \<comment> \<open>inode 14: a file of 501 blocks, double-indirect block 7\<close>
  "large_inode = demo_inode [0, 212, 7, 0] 0 0 7"

definition stale_inode :: inode_t where       \<comment> \<open>inode 15: a file of 1 byte in block 6; slot 1 names block 10\<close>
  "stale_inode = demo_inode [1, 0, 0, 0] 6 10 0"

definition dot_entry :: dir_entry_t where     \<comment> \<open>the entry \<^verbatim>\<open>.\<close>: inode 2, record length 12\<close>
  "dot_entry = [2, 0, 0, 0, 12, 0, 1, 2, 46, 0, 0, 0]"

definition f_entry :: dir_entry_t where       \<comment> \<open>the entry \<^verbatim>\<open>f\<close>: inode 12, record length 12\<close>
  "f_entry = [12, 0, 0, 0, 12, 0, 1, 1, 102, 0, 0, 0]"

definition demo_image :: "byte \<Rightarrow> byte \<Rightarrow> bytes" where
  "demo_image m0 m1 =
     block [0xEB, 0x3C, 0x90]
     @ block (demo_superblock m0 m1)
     @ block demo_group_desc
     @ block (replicate 128 0 @ root_inode)
     @ block (replicate 384 0 @ file_inode @ sparse_inode @ large_inode @ stale_inode)
     @ block (dot_entry @ f_entry)
     @ block [65, 66, 67, 68, 69, 70, 71, 72]
     @ block ([8, 0, 0, 0] @ [9, 0, 0, 0])
     @ block (replicate 928 0 @ [77, 0, 0, 0])
     @ block (replicate 928 0 @ [88, 0, 0, 0])"

definition demo_device :: "byte \<Rightarrow> byte \<Rightarrow> device" where
  "demo_device m0 m1 = \<lparr> dev_data = demo_image m0 m1, dev_error = False \<rparr>"

text \<open>
  The volume structure of that image, with the descriptor table in a live block as the
  functions that take a volume expect it.
\<close>

definition demo_volume :: volume_t where
  "demo_volume = \<lparr> fd = demo_device 0x53 0xEF, block_size = 1024, volume_size = 10240,
      num_groups = 1, super = demo_superblock 0x53 0xEF, groups = Live [demo_group_desc] \<rparr>"

text \<open>The same volume on a device that fails every read, and one choice of the indeterminate locals.\<close>

definition failing_volume :: volume_t where
  "failing_volume = demo_volume \<lparr> fd := \<lparr> dev_data = demo_image 0x53 0xEF, dev_error = True \<rparr> \<rparr>"

definition demo_indet :: indet where
  "demo_indet = \<lparr> blockNum0 = 7, firstSize0 = 0xAAAA, newDirEntry0 = replicate 264 0xAA,
      currInode0 = replicate 128 0xAA, currDir0 = replicate 264 0xAA \<rparr>"

section \<open>Properties\<close>

subsection \<open>Little-endian fields\<close>

lemma unat_byte_of_word:
  "unat (ucast (drop_bit k (w :: 'a::len word)) :: byte) = unat w div 2 ^ k mod 256"
proof -
  have "unat (ucast (drop_bit k w) :: byte) = take_bit 8 (unat (drop_bit k w))"
    by (simp only: unsigned_ucast_eq) simp
  also have "\<dots> = take_bit 8 (drop_bit k (unat w))"
    by (simp only: unat_drop_bit_eq)
  also have "\<dots> = unat w div 2 ^ k mod 256"
    by (simp only: take_bit_eq_mod drop_bit_eq_div) simp
  finally show ?thesis .
qed

lemma radix_256:
  fixes n :: nat
  shows "n = r0 + 256 * a \<Longrightarrow> a = r1 + 256 * b \<Longrightarrow> b = r2 + 256 * c
    \<Longrightarrow> r0 + 256 * r1 + 65536 * r2 + 16777216 * c = n"
  by simp

lemma four_bytes_of_nat:
  fixes n :: nat
  assumes "n < 4294967296"
  shows "n mod 256 + 256 * (n div 256 mod 256) + 65536 * (n div 65536 mod 256)
            + 16777216 * (n div 16777216 mod 256) = n"
proof -
  have top: "n div 16777216 < 256"
    using assms by (simp add: less_mult_imp_div_less)
  have nest: "n div 256 div 256 = n div 65536" "n div 65536 div 256 = n div 16777216"
    by (simp_all add: div_mult2_eq [symmetric])
  have "n mod 256 + 256 * (n div 256 mod 256) + 65536 * (n div 65536 mod 256)
            + 16777216 * (n div 16777216) = n"
  proof (rule radix_256)
    show "n = n mod 256 + 256 * (n div 256)" by simp
    show "n div 256 = n div 256 mod 256 + 256 * (n div 65536)"
      unfolding nest [symmetric] by simp
    show "n div 65536 = n div 65536 mod 256 + 256 * (n div 16777216)"
      unfolding nest(2) [symmetric] by simp
  qed
  then show ?thesis using top by simp
qed

text \<open>A 32-bit local read back from its own bytes is unchanged.\<close>

lemma le32_bytes_of_u32: "le32 (bytes_of_u32 w) 0 = w"
proof -
  have n: "unat w < 4294967296"
    using unsigned_less [of w, where 'a = nat] by simp
  have "le32 (bytes_of_u32 w) 0 = word_of_nat (unat w mod 256 + 256 * (unat w div 256 mod 256)
            + 65536 * (unat w div 65536 mod 256) + 16777216 * (unat w div 16777216 mod 256))"
    unfolding le32_def bytes_of_u32_def
    using unat_byte_of_word [of 0 w] unat_byte_of_word [of 8 w]
      unat_byte_of_word [of 16 w] unat_byte_of_word [of 24 w]
    by (simp del: of_nat_add of_nat_mult)
  then show ?thesis unfolding four_bytes_of_nat [OF n] by simp
qed

lemma le32_take_drop:
  assumes "pos + 4 \<le> length xs"
  shows "le32 (take 4 (drop pos xs)) 0 = le32 xs pos"
  using assms by (simp add: le32_def add.commute)

subsection \<open>Arithmetic on 32 and 64 bits\<close>

lemma unat_add_le: "unat (a + b :: 'a::len word) \<le> unat a + unat b"
  by (simp add: unat_word_ariths)

lemma unat_mult_le: "unat (a * b :: 'a::len word) \<le> unat a * unat b"
  by (simp add: unat_word_ariths)

lemma unat_ucast_u32_u64: "unat (ucast (w :: u32) :: u64) = unat w"
proof -
  have "unat w < 2 ^ 32"
    using unsigned_less [of w, where 'a = nat] by simp
  then have "unat w < 2 ^ 64"
    by (rule less_le_trans) simp
  then show ?thesis
    by (simp add: unsigned_ucast_eq take_bit_nat_eq_self)
qed

lemma not_less_ucast: "unat (w :: u32) \<le> unat (x :: u64) \<Longrightarrow> \<not> x < ucast w"
  by (simp add: word_less_nat_alt unat_ucast_u32_u64)

lemma unat_max_u64: "unat (- 1 :: u64) = 18446744073709551615"
  by (simp add: unsigned_minus_1_eq_mask mask_eq_exp_minus_1)

text \<open>
  The tier bounds that \<^verbatim>\<open>get_inode_block_no\<close> computes on 32 bits never exceed the
  bounds \<open>12 + P\<close>, \<open>12 + P + P\<^sup>2\<close> and \<open>12 + P + P\<^sup>2 + P\<^sup>3\<close> of the format.
\<close>

lemma tier_bounds:
  fixes p :: u32
  shows "unat (p + 12) \<le> unat p + 12"
    and "unat (12 + (p + 1) * p) \<le> 12 + unat p + (unat p)\<^sup>2"
    and "unat (((p + 1) * p + 1) * p + 12) \<le> 12 + unat p + (unat p)\<^sup>2 + (unat p) ^ 3"
proof -
  let ?P = "unat p"
  show "unat (p + 12) \<le> ?P + 12"
    using unat_add_le [of p 12] by simp
  have a: "unat (p + 1) \<le> ?P + 1"
    using unat_add_le [of p 1] by simp
  have b: "unat ((p + 1) * p) \<le> (?P + 1) * ?P"
    using unat_mult_le [of "p + 1" p] a by (meson le_trans mult_le_mono1)
  have b': "unat (12 + (p + 1) * p) \<le> 12 + unat ((p + 1) * p)"
    using unat_add_le [of 12 "(p + 1) * p"] by simp
  have sq: "(?P + 1) * ?P = ?P + ?P\<^sup>2"
    by (simp add: power2_eq_square)
  show "unat (12 + (p + 1) * p) \<le> 12 + ?P + ?P\<^sup>2"
    using b b' unfolding sq by linarith
  have c': "unat ((p + 1) * p + 1) \<le> unat ((p + 1) * p) + 1"
    using unat_add_le [of "(p + 1) * p" 1] by simp
  have c: "unat ((p + 1) * p + 1) \<le> (?P + 1) * ?P + 1"
    using c' b by linarith
  have d: "unat (((p + 1) * p + 1) * p) \<le> ((?P + 1) * ?P + 1) * ?P"
    using unat_mult_le [of "(p + 1) * p + 1" p] c by (meson le_trans mult_le_mono1)
  have e: "unat (((p + 1) * p + 1) * p + 12) \<le> unat (((p + 1) * p + 1) * p) + 12"
    using unat_add_le [of "((p + 1) * p + 1) * p" 12] by simp
  have cu: "((?P + 1) * ?P + 1) * ?P = ?P + ?P\<^sup>2 + ?P ^ 3"
    by (simp add: power2_eq_square power3_eq_cube algebra_simps)
  show "unat (((p + 1) * p + 1) * p + 12) \<le> 12 + ?P + ?P\<^sup>2 + ?P ^ 3"
    using d e unfolding cu by linarith
qed

subsection \<open>Evaluation on the small volume image\<close>

lemmas fixture_defs = block_def demo_superblock_def demo_group_desc_def demo_inode_def
  root_inode_def file_inode_def sparse_inode_def large_inode_def stale_inode_def dot_entry_def
  f_entry_def demo_image_def demo_device_def demo_volume_def demo_indet_def

lemmas field_defs = le16_def le32_def bytes_of_u16_def bytes_of_u32_def c_string_def
  s_blocks_count_def s_log_block_size_def s_blocks_per_group_def s_inodes_per_group_def
  s_magic_def s_inode_size_def bg_inode_table_def i_size_def i_block_def i_block_1ind_def
  i_block_2ind_def i_block_3ind_def de_inode_no_def de_rec_len_def de_name_def
  inode_file_size_def EXT2_INVALID_BLOCK_NUMBER_def EXT2_SUPER_MAGIC_def

lemmas code_defs = overwrite_def pread_def read_block_def read_ind_block_entry_def
  get_inode_block_no_def read_file_block_def read_inode_def cstr_nth_def compare_file_name_def

lemmas ev = fixture_defs field_defs code_defs nth_append Let_def word_less_nat_alt word_le_nat_alt
  unat_max_u64

lemma length_demo_image: "length (demo_image m0 m1) = 10240"
  by (simp add: ev)

lemma groups_demo_volume: "groups demo_volume = Live [demo_group_desc]"
  by (simp add: demo_volume_def)

lemma inode_size_demo_volume: "s_inode_size (super demo_volume) = 128"
  by (simp add: ev)

lemma i_size_root: "i_size (root_inode @ tail) = 24"
  by (simp add: ev)

lemma entry_lengths: "length dot_entry = 12" "length f_entry = 12"
  by (simp_all add: dot_entry_def f_entry_def)

lemma entry_fields:
  "de_rec_len (dot_entry @ t) = 12" "de_inode_no (dot_entry @ t) = 2" "de_name (dot_entry @ t) = [46]"
  "de_rec_len (f_entry @ t) = 12" "de_inode_no (f_entry @ t) = 12" "de_name (f_entry @ t) = [102]"
  by (simp_all add: field_defs dot_entry_def f_entry_def nth_append)

text \<open>The three reads that a scan of the root directory issues.\<close>

lemma read_root_first_size:
  "read_file_block demo_volume u (root_inode @ tail) 4 2 b
     = Some (2, [12, 0] @ drop 2 b, [Pread 5124 2])"
  by (simp add: ev)

lemma read_root_dot:
  "read_file_block demo_volume u (root_inode @ tail) 0 12 b
     = Some (12, dot_entry @ drop 12 b, [Pread 5120 12])"
  by (simp add: ev)

lemma read_root_f:
  "read_file_block demo_volume u (root_inode @ tail) 12 12 b
     = Some (12, f_entry @ drop 12 b, [Pread 5132 12])"
  by (simp add: ev)

lemma follow_loop_root_end:
  "follow_directory_entries_loop demo_volume u (root_inode @ tail) context buffer f 24 e tr
     = Some (0, buffer, tr)"
  by (subst follow_directory_entries_loop.simps) (simp add: i_size_root)

lemma follow_loop_root_second:
  "follow_directory_entries_loop demo_volume u (root_inode @ tail) context buffer f 12 (dot_entry @ t) tr
     = (if f [102] 12 context \<noteq> 0 \<and> buffer \<noteq> None
        then Some (12, Some (f_entry @ t), tr @ [Pread 5132 12, Pread 5132 12, Visit [102] 12])
        else Some (0, buffer, tr @ [Pread 5132 12, Pread 5132 12, Visit [102] 12]))"
  by (subst follow_directory_entries_loop.simps)
     (simp add: i_size_root entry_fields entry_lengths read_root_f follow_loop_root_end)

text \<open>
  A scan of the root directory of the image, for any visitor and any buffer argument:
  a non-zero result of the visitor ends the scan only when the buffer is not
  \<^verbatim>\<open>NULL\<close>.
\<close>

lemma follow_demo_root:
  "follow_directory_entries demo_volume u (root_inode @ tail) context buffer f =
     (if f [46] 2 context \<noteq> 0 \<and> buffer \<noteq> None
      then Some (2, Some (dot_entry @ drop 12 (newDirEntry0 u)),
                 [Pread 5124 2, Pread 5120 12, Visit [46] 2])
      else if f [102] 12 context \<noteq> 0 \<and> buffer \<noteq> None
      then Some (12, Some (f_entry @ drop 12 (newDirEntry0 u)),
                 [Pread 5124 2, Pread 5120 12, Visit [46] 2,
                  Pread 5132 12, Pread 5132 12, Visit [102] 12])
      else Some (0, buffer,
                 [Pread 5124 2, Pread 5120 12, Visit [46] 2,
                  Pread 5132 12, Pread 5132 12, Visit [102] 12]))"
  by (simp add: follow_directory_entries_def read_root_first_size le16_def bytes_of_u16_def
      read_root_dot entry_fields follow_loop_root_second)

section \<open>The claims\<close>

subsection \<open>C1: a hole read through \<^verbatim>\<open>read_file_block\<close>\<close>

text \<open>
  C1 says that when the resolver maps the block of the offset to physical block 0, a hole,
  \<^verbatim>\<open>read_file_block\<close> fills the clamped length of the buffer with zero bytes and
  returns that length without a read of the storage. The code hands block number 0 to
  \<^verbatim>\<open>read_block\<close>, which reads the volume file at position 0 plus the offset in the
  block: for the sparse file of the image, whose block 0 is a hole, a read of 4 bytes at
  offset 0 issues one positioned read at file position 0 and delivers the first bytes of
  the boot block, which are not zero.
\<close>

theorem read_file_block_hole_reads_storage:
  "get_inode_block_no demo_volume u sparse_inode 0 = Some (0, [])
   \<and> read_file_block demo_volume u sparse_inode 0 4 [9, 9, 9, 9]
       = Some (4, [0xEB, 0x3C, 0x90, 0], [Pread 0 4])"
  by (simp add: ev)

text \<open>
  This holds for every hole: whenever the resolver gives block 0, the function issues a
  positioned read of the volume file at the offset in the block.
\<close>

lemma read_file_block_hole:
  assumes "block_size volume \<noteq> 0"
    and "get_inode_block_no volume u inode
           (scast (ucast (offset div ucast (block_size volume)) :: u32)) = Some (0, t1)"
  shows "\<exists>rv buffer' sz. read_file_block volume u inode offset max_size buffer
           = Some (rv, buffer', t1 @ [Pread (unat (ucast (offset mod ucast (block_size volume)) :: u32)) sz])"
  using assms by (simp add: read_file_block_def read_block_def Let_def split: prod.splits)

subsection \<open>C2: a path component that is absent\<close>

text \<open>
  C2 says that when the lookup of a component returns 0 because the name is absent,
  \<^verbatim>\<open>find_file_from_path\<close> returns 0 and looks up no later component. The code leaves
  the loop at that component, so no later component is looked up, but it returns
  \<^verbatim>\<open>currDir.de_inode_no\<close>, which a failed lookup does not write: for the path
  \<^verbatim>\<open>/missing/f\<close> on the image, the lookup of \<^verbatim>\<open>missing\<close> in the root directory
  returns 0 and leaves the buffer as it was, and the function returns 2, the number of
  the root inode, with the root inode as the result inode.
\<close>

theorem find_file_from_path_absent_returns_parent:
  "find_file_in_directory demo_volume u root_inode (map of_char ''missing'') (Some d)
     = Some (0, Some d, [Pread 5124 2, Pread 5120 12, Visit (map of_char ''.'') 2,
                         Pread 5132 12, Pread 5132 12, Visit (map of_char ''f'') 12])
   \<and> find_file_from_path demo_volume u (map of_char ''/missing/f'') dest_inode
     = Some (2, root_inode @ drop 128 (currInode0 u),
             [Pread 3200 128, Pread 5124 2, Pread 5120 12, Visit (map of_char ''.'') 2,
              Pread 5132 12, Pread 5132 12, Visit (map of_char ''f'') 12])"
proof
  show "find_file_in_directory demo_volume u root_inode (map of_char ''missing'') (Some d)
     = Some (0, Some d, [Pread 5124 2, Pread 5120 12, Visit (map of_char ''.'') 2,
                         Pread 5132 12, Pread 5132 12, Visit (map of_char ''f'') 12])"
    by (simp add: find_file_in_directory_def follow_demo_root [where tail = "[]", simplified]
        compare_file_name_def c_string_def)
  have root: "read_block demo_volume (bg_inode_table demo_group_desc) 128 128 (currInode0 u)
      = (128, root_inode @ drop 128 (currInode0 u), [Pread 3200 128])"
    by (simp add: ev)
  have lookup: "find_file_in_directory demo_volume u (root_inode @ drop 128 (currInode0 u))
        (map of_char ''missing'') (Some b)
      = Some (0, Some b, [Pread 5124 2, Pread 5120 12, Visit [46] 2,
                          Pread 5132 12, Pread 5132 12, Visit [102] 12])" for b
    by (simp add: find_file_in_directory_def follow_demo_root compare_file_name_def c_string_def)
  show "find_file_from_path demo_volume u (map of_char ''/missing/f'') dest_inode
     = Some (2, root_inode @ drop 128 (currInode0 u),
             [Pread 3200 128, Pread 5124 2, Pread 5120 12, Visit (map of_char ''.'') 2,
              Pread 5132 12, Pread 5132 12, Visit (map of_char ''f'') 12])"
    by (simp add: find_file_from_path_def cstr_nth_def groups_demo_volume inode_size_demo_volume
        root lookup [simplified] de_inode_no_def le32_def overwrite_def bytes_of_u32_def Let_def)
qed

text \<open>
  This holds for every volume and every path whose first component is absent from the
  root directory: the characters of the component are skipped, the lookup fails and
  leaves \<^verbatim>\<open>currDir\<close> as it was, and the function returns 2.
\<close>

lemma path_loop_skip_name:
  assumes path: "path = of_char CHR ''/'' # name @ rest"
    and name: "\<forall>c \<in> set name. c \<noteq> of_char CHR ''/'' \<and> c \<noteq> 0"
    and n: "n \<le> length name"
  shows "find_file_from_path_loop volume u path (Suc n) 1 (Suc n) currInode currDir tr
       = find_file_from_path_loop volume u path (Suc (length name)) 1 (Suc (length name)) currInode currDir tr"
  using n
proof (induction "length name - n" arbitrary: n)
  case 0
  then show ?case by simp
next
  case (Suc k)
  then have lt: "n < length name" by linarith
  have prev: "cstr_nth path n \<noteq> 0"
  proof (cases n)
    case 0
    then show ?thesis by (simp add: cstr_nth_def path)
  next
    case (Suc m)
    then have "cstr_nth path n = name ! m" "m < length name"
      using lt by (simp_all add: cstr_nth_def path nth_append)
    then show ?thesis using name by (metis nth_mem)
  qed
  have cur: "cstr_nth path (Suc n) = name ! n"
    using lt by (simp add: cstr_nth_def path nth_append)
  then have cur': "cstr_nth path (Suc n) \<noteq> of_char CHR ''/''" "cstr_nth path (Suc n) \<noteq> 0"
    using name lt by (metis nth_mem)+
  have "find_file_from_path_loop volume u path (Suc n) 1 (Suc n) currInode currDir tr
      = find_file_from_path_loop volume u path (Suc (Suc n)) 1 (Suc (Suc n)) currInode currDir tr"
    using prev cur' by (subst find_file_from_path_loop.simps) simp
  also have "\<dots> = find_file_from_path_loop volume u path (Suc (length name)) 1 (Suc (length name))
      currInode currDir tr"
    using Suc.hyps(1) [of "Suc n"] Suc.hyps(2) lt by simp
  finally show ?case .
qed

lemma find_file_from_path_first_component_absent:
  assumes path: "path = of_char CHR ''/'' # name @ rest"
    and name: "\<forall>c \<in> set name. c \<noteq> of_char CHR ''/'' \<and> c \<noteq> 0" "name \<noteq> []"
    and rest: "rest = [] \<or> hd rest = of_char CHR ''/''"
    and groups: "groups volume = Live (g0 # gs)"
    and root: "read_block volume (bg_inode_table g0) (ucast (s_inode_size (super volume)))
                 (ucast (s_inode_size (super volume))) (currInode0 u) = (rv, currInode, t0)"
    and absent: "find_file_in_directory volume u currInode name
                   (Some (overwrite (currDir0 u) (bytes_of_u32 2)))
                 = Some (0, Some (overwrite (currDir0 u) (bytes_of_u32 2)), t1)"
  shows "find_file_from_path volume u path dest_inode = Some (2, currInode, t0 @ t1)"
proof -
  let ?currDir = "overwrite (currDir0 u) (bytes_of_u32 2)"
  let ?n = "length name"
  have last: "cstr_nth path ?n \<noteq> 0"
  proof -
    obtain m where m: "?n = Suc m" using name(2) by (cases name) simp_all
    then have "cstr_nth path ?n = name ! m" "m < length name"
      by (simp_all add: cstr_nth_def path nth_append)
    then show ?thesis using name(1) by (metis nth_mem)
  qed
  have stop: "cstr_nth path (Suc ?n) = of_char CHR ''/'' \<or> cstr_nth path (Suc ?n) = 0"
  proof (cases rest)
    case Nil
    then show ?thesis by (simp add: cstr_nth_def path)
  next
    case (Cons c cs)
    then show ?thesis using rest by (simp add: cstr_nth_def path nth_append)
  qed
  have comp: "take (Suc ?n - 1) (drop 1 path) = name"
    by (simp add: path)
  have "find_file_from_path_loop volume u path 1 1 1 currInode ?currDir t0
      = find_file_from_path_loop volume u path (Suc ?n) 1 (Suc ?n) currInode ?currDir t0"
    using path_loop_skip_name [OF path name(1), of 0] by simp
  also have "\<dots> = Some (currInode, ?currDir, t0 @ t1)"
    using last stop name(2) comp absent
    by (subst find_file_from_path_loop.simps) (auto simp: Let_def)
  finally have loop: "find_file_from_path_loop volume u path 1 1 1 currInode ?currDir t0
      = Some (currInode, ?currDir, t0 @ t1)" .
  have "de_inode_no ?currDir = 2"
    using le32_bytes_of_u32 [of 2]
    by (simp add: de_inode_no_def le32_def overwrite_def bytes_of_u32_def)
  then show ?thesis
    using groups root loop
    by (simp add: find_file_from_path_def cstr_nth_def path Let_def)
qed

subsection \<open>C3: the read callback and \<^verbatim>\<open>read_file_content\<close>\<close>

text \<open>
  C3 says that \<^verbatim>\<open>ext2_read\<close> transfers exactly the bytes that
  \<^verbatim>\<open>read_file_content\<close> would transfer for the same inode, offset and size. The code
  of \<^verbatim>\<open>ext2_read\<close> does not call \<^verbatim>\<open>read_file_content\<close>: it resolves one block
  and reads the requested size from it, without the clamp to the file size. For the file
  of 4 bytes with handle 12, a read of 8 bytes at offset 0 transfers 4 bytes through
  \<^verbatim>\<open>read_file_content\<close> and 8 bytes through \<^verbatim>\<open>ext2_read\<close>.
\<close>

theorem ext2_read_differs_from_read_file_content:
  "read_inode demo_volume 12 (currInode0 u)
     = Some (128, file_inode @ drop 128 (currInode0 u), [Pread 4480 128])
   \<and> inode_file_size demo_volume (file_inode @ drop 128 (currInode0 u)) = 4
   \<and> read_file_content demo_volume u (file_inode @ drop 128 (currInode0 u)) 0 8
         [0, 0, 0, 0, 0, 0, 0, 0]
     = Some (4, [65, 66, 67, 68, 0, 0, 0, 0], [Pread 6144 4])
   \<and> ext2_read demo_volume u 12 [0, 0, 0, 0, 0, 0, 0, 0] 8 0
     = Some (8, [65, 66, 67, 68, 69, 70, 71, 72], [Pread 4480 128, Pread 6144 8])"
proof (intro conjI)
  show ri: "read_inode demo_volume 12 (currInode0 u)
     = Some (128, file_inode @ drop 128 (currInode0 u), [Pread 4480 128])"
    by (simp add: ev)
  show "inode_file_size demo_volume (file_inode @ drop 128 (currInode0 u)) = 4"
    by (simp add: ev)
  show "read_file_content demo_volume u (file_inode @ drop 128 (currInode0 u)) 0 8
         [0, 0, 0, 0, 0, 0, 0, 0]
     = Some (4, [65, 66, 67, 68, 0, 0, 0, 0], [Pread 6144 4])"
    apply (simp add: read_file_content_def clamp_max_size_def)
    apply (simp add: ev)
    apply (subst read_file_content_loop.simps, simp add: ev)
    apply (subst read_file_content_loop.simps, simp add: ev)
    done
  show "ext2_read demo_volume u 12 [0, 0, 0, 0, 0, 0, 0, 0] 8 0
     = Some (8, [65, 66, 67, 68, 69, 70, 71, 72], [Pread 4480 128, Pread 6144 8])"
    by (simp add: ext2_read_def ri) (simp add: ev)
qed

subsection \<open>C4: the double-indirect tier\<close>

text \<open>
  C4 says that for an index in the double-indirect tier \<^verbatim>\<open>get_inode_block_no\<close> looks
  up the outer entry \<open>(index - 12 - P) / P\<close> of the double-indirect block and then
  the inner entry \<open>(index - 12 - P) % P\<close> of the block found there. The code computes
  the outer index as \<open>(index - P + 12) / P\<close>. With blocks of 1024 bytes (\<open>P = 256\<close>)
  and index 500, which lies in the tier, the outer index of the claim is 0 and leads
  through indirect block 8 to block 77; the code reads outer entry 1 (file position
  7172) and returns 88, the entry of indirect block 9.
\<close>

theorem get_inode_block_no_double_indirect_outer_index:
  "(12 + 256 \<le> (500 :: nat) \<and> (500 :: nat) < 12 + 256 + 256 * 256)
   \<and> unat (block_size demo_volume) div 4 = 256
   \<and> get_inode_block_no demo_volume u large_inode 500
       = Some (88, [Pread 7172 4, Pread 10144 4])
   \<and> read_ind_block_entry demo_volume u (i_block_2ind large_inode) ((500 - 12 - 256) div 256)
       = (8, [Pread 7168 4])
   \<and> read_ind_block_entry demo_volume u 8 ((500 - 12 - 256) mod 256) = (77, [Pread 9120 4])"
  by (simp add: ev)

text \<open>
  For every index of the tier (and a block size for which the bounds fit in 32 bits) the
  function performs two entry lookups, the second in the block that the first returns,
  with the inner index of the claim and the outer index \<open>(index - P + 12) div P\<close>.
\<close>

lemma unat_ucast_u64_u32:
  "unat (x :: u64) < 2 ^ 32 \<Longrightarrow> unat (ucast x :: u32) = unat x"
  by (simp add: unsigned_ucast_eq take_bit_nat_eq_self)

lemma ucast_u64_u32_of_nat:
  "unat (x :: u64) = n \<Longrightarrow> n < 2 ^ 32 \<Longrightarrow> (ucast x :: u32) = of_nat n"
proof -
  assume "unat x = n" and "n < 2 ^ 32"
  then have "unat (ucast x :: u32) = n"
    by (simp add: unat_ucast_u64_u32)
  then have "of_nat (unat (ucast x :: u32)) = (of_nat n :: u32)"
    by simp
  then show ?thesis by simp
qed

lemma get_inode_block_no_double_tier:
  assumes P: "P = unat (block_size volume) div 4"
    and lo: "12 + P \<le> unat block_idx" and hi: "unat block_idx < 12 + P + P\<^sup>2"
    and fits: "24 + P + P\<^sup>2 < 2 ^ 32"
  shows "get_inode_block_no volume u inode block_idx =
     (let (indBlockNo, t1) = read_ind_block_entry volume u (i_block_2ind inode)
                               (of_nat ((unat block_idx - P + 12) div P));
          (r, t2) = read_ind_block_entry volume u indBlockNo
                               (of_nat ((unat block_idx - (P + 12)) mod P))
      in Some (r, t1 @ t2))"
proof -
  let ?p = "block_size volume div 4"
  have p: "unat ?p = P"
    by (simp add: P unat_div)
  have Ppos: "0 < P"
    using lo hi by (cases "P = 0") simp_all
  then have pnz: "?p \<noteq> 0"
    using p by (metis less_numeral_extra(3) unat_0)
  have b1: "unat (?p + 12) = P + 12"
    using fits p by (simp add: unat_add_lem [THEN iffD1])
  have P1: "unat (?p + 1) = P + 1"
    using fits p by (simp add: unat_add_lem [THEN iffD1])
  have sq: "(P + 1) * P = P + P\<^sup>2"
    by (simp add: power2_eq_square)
  have prod: "unat ((?p + 1) * ?p) = (P + 1) * P"
    using fits p P1 sq by (simp add: unat_mult_lem [THEN iffD1])
  have b2: "unat (12 + (?p + 1) * ?p) = 12 + P + P\<^sup>2"
    using fits prod sq by (simp add: unat_add_lem [THEN iffD1])
  have g1: "\<not> block_idx < 12"
    using lo by (simp add: word_less_nat_alt)
  have g2: "\<not> block_idx < ucast (?p + 12)"
    using lo b1 by (simp add: word_less_nat_alt unat_ucast_u32_u64)
  have g3: "block_idx < ucast (12 + (?p + 1) * ?p)"
    using hi b2 by (simp add: word_less_nat_alt unat_ucast_u32_u64)
  have up: "unat (ucast ?p :: u64) = P"
    by (simp add: unat_ucast_u32_u64 p)
  have idx: "unat block_idx < 2 ^ 32"
    using hi fits by linarith
  have sub: "unat (block_idx - ucast ?p) = unat block_idx - P"
    using lo up by (simp add: unat_sub word_le_nat_alt)
  have outer_sum: "unat (block_idx - ucast ?p + 12) = unat block_idx - P + 12"
  proof -
    have "unat (block_idx - ucast ?p) + unat (12 :: u64) < 2 ^ 64"
      using sub idx by simp
    then show ?thesis using sub by (simp add: unat_add_lem [THEN iffD1])
  qed
  have outer: "unat ((block_idx - ucast ?p + 12) div ucast ?p) = (unat block_idx - P + 12) div P"
    by (simp add: unat_div outer_sum up)
  have outer_lt: "(unat block_idx - P + 12) div P < 2 ^ 32"
  proof -
    have "(unat block_idx - P + 12) div P \<le> unat block_idx - P + 12"
      by (rule div_le_dividend)
    then show ?thesis using hi fits by linarith
  qed
  have o: "(ucast ((block_idx - ucast ?p + 12) div ucast ?p) :: u32)
      = of_nat ((unat block_idx - P + 12) div P)"
    using outer outer_lt by (rule ucast_u64_u32_of_nat)
  have up12: "unat (ucast (?p + 12) :: u64) = P + 12"
    by (simp add: unat_ucast_u32_u64 b1)
  have inner_sub: "unat (block_idx - ucast (?p + 12)) = unat block_idx - (P + 12)"
    using lo up12 by (simp add: unat_sub word_le_nat_alt)
  have inner: "unat ((block_idx - ucast (?p + 12)) mod ucast ?p) = (unat block_idx - (P + 12)) mod P"
    by (simp add: unat_mod inner_sub up)
  have inner_lt: "(unat block_idx - (P + 12)) mod P < 2 ^ 32"
  proof -
    have "(unat block_idx - (P + 12)) mod P < P"
      using Ppos by simp
    then show ?thesis using fits by linarith
  qed
  have i: "(ucast ((block_idx - ucast (?p + 12)) mod ucast ?p) :: u32)
      = of_nat ((unat block_idx - (P + 12)) mod P)"
    using inner inner_lt by (rule ucast_u64_u32_of_nat)
  show ?thesis
    unfolding get_inode_block_no_def Let_def
    using g1 g2 g3 pnz by (simp add: o i)
qed

subsection \<open>C5: the magic signature\<close>

text \<open>
  C5 says that \<^verbatim>\<open>open_volume_file\<close> fails for every file whose superblock magic
  differs from the ext2 magic constant. The code never reads \<^verbatim>\<open>s_magic\<close>: the image
  with the magic field set to 0 is opened like the one with the right magic, and a
  volume is returned (with its descriptor table freed, as in every volume the function
  returns).
\<close>

theorem open_volume_file_ignores_magic:
  "s_magic (demo_superblock 0 0) \<noteq> EXT2_SUPER_MAGIC
   \<and> open_volume_file [''disk.img'' \<mapsto> demo_device 0 0] ''disk.img''
       = Some (Some (demo_volume \<lparr> fd := demo_device 0 0, super := demo_superblock 0 0,
                                   groups := Freed \<rparr>),
               [Pread 1024 204, Pread 2048 32])"
  by (simp add: open_volume_file_def) (simp add: ev)

text \<open>
  For every file the function returns \<^verbatim>\<open>NULL\<close> only when the file cannot be opened,
  the device fails, or the file is too short for the superblock or for the group
  descriptor: the magic field plays no part.
\<close>

lemma open_volume_file_null:
  assumes "open_volume_file files filename = Some (None, tr)"
  shows "files filename = None
    \<or> (\<exists>dev. files filename = Some dev
          \<and> (length (dev_data dev) < 1024 + 204 \<or> dev_error dev
              \<or> length (dev_data dev)
                 < unat (1024 + push_bit (unat (s_log_block_size (take 204 (drop 1024 (dev_data dev))))) (1024 :: u32)) + 32))"
proof (cases "files filename")
  case None
  then show ?thesis by simp
next
  case (Some dev)
  show ?thesis
  proof (cases "dev_error dev \<or> length (dev_data dev) < 1024 + 204")
    case True
    then show ?thesis using Some by auto
  next
    case False
    then have sup: "pread dev [] 204 1024 = (204, take 204 (drop 1024 (dev_data dev)))"
      by (auto simp: pread_def overwrite_def Let_def min_def)
    let ?sb = "take 204 (drop 1024 (dev_data dev))"
    let ?bs = "push_bit (unat (s_log_block_size ?sb)) (1024 :: u32)"
    have "length (dev_data dev) < unat (1024 + ?bs) + 32"
    proof (rule ccontr)
      assume "\<not> length (dev_data dev) < unat (1024 + ?bs) + 32"
      then have "fst (pread dev [] 32 (unat (1024 + ?bs))) = 32"
        using False by (auto simp: pread_def overwrite_def Let_def min_def)
      then show False
        using assms Some sup
        by (auto simp: open_volume_file_def Let_def split: if_splits prod.splits)
    qed
    then show ?thesis using Some by auto
  qed
qed

text \<open>
  Every volume the function returns has had its descriptor table freed at line 68.
\<close>

lemma open_volume_file_groups_freed:
  assumes "open_volume_file files filename = Some (Some volume, tr)"
  shows "groups volume = Freed"
  using assms
  by (auto simp: open_volume_file_def Let_def split: option.splits if_splits prod.splits)

subsection \<open>C6: indices beyond the triple-indirect tier\<close>

text \<open>
  C6: for every volume and inode, and every block index of at least
  \<open>12 + P + P\<^sup>2 + P\<^sup>3\<close> with \<open>P\<close> a quarter of the block size,
  \<^verbatim>\<open>get_inode_block_no\<close> returns \<^verbatim>\<open>EXT2_INVALID_BLOCK_NUMBER\<close>. It does so
  whatever the block size is, without a trap and without a read of the storage, so the
  result does not come from a failed read.
\<close>

theorem get_inode_block_no_beyond_triple_invalid:
  assumes "12 + P + P\<^sup>2 + P ^ 3 \<le> unat block_idx" and P: "P = unat (block_size volume) div 4"
  shows "get_inode_block_no volume u inode block_idx = Some (EXT2_INVALID_BLOCK_NUMBER, [])"
proof -
  let ?p = "block_size volume div 4"
  have p: "unat ?p = P"
    by (simp add: P unat_div)
  have g1: "\<not> block_idx < 12"
    using assms(1) by (simp add: word_less_nat_alt)
  have g2: "\<not> block_idx < ucast (?p + 12)"
    using tier_bounds(1) [of ?p] assms(1) unfolding p by (intro not_less_ucast) simp
  have g3: "\<not> block_idx < ucast (12 + (?p + 1) * ?p)"
    using tier_bounds(2) [of ?p] assms(1) unfolding p by (intro not_less_ucast) simp
  have g4: "\<not> block_idx < ucast (((?p + 1) * ?p + 1) * ?p + 12)"
    using tier_bounds(3) [of ?p] assms(1) unfolding p by (intro not_less_ucast) simp
  show ?thesis
    unfolding get_inode_block_no_def Let_def using g1 g2 g3 g4 by simp
qed

text \<open>With blocks of 1024 bytes the first index beyond the tiers is 16843020.\<close>

theorem get_inode_block_no_beyond_triple_invalid_witness:
  "12 + 256 + 256\<^sup>2 + 256 ^ 3 \<le> unat (16843020 :: u64)
   \<and> (256 :: nat) = unat (block_size demo_volume) div 4
   \<and> get_inode_block_no demo_volume demo_indet file_inode 16843020
       = Some (EXT2_INVALID_BLOCK_NUMBER, [])"
proof -
  have a: "12 + 256 + 256\<^sup>2 + 256 ^ 3 \<le> unat (16843020 :: u64)"
    by simp
  have b: "(256 :: nat) = unat (block_size demo_volume) div 4"
    by (simp add: demo_volume_def)
  show ?thesis
    using a b get_inode_block_no_beyond_triple_invalid [OF a b, of demo_indet file_inode]
    by simp
qed

subsection \<open>C7: reads are limited to the file size\<close>

text \<open>
  C7 says that for an offset within the file \<^verbatim>\<open>read_file_content\<close> transfers at most
  \<open>file_size - offset\<close> bytes, and that at an offset equal to the file size it returns
  0 bytes for any positive length. The test \<^verbatim>\<open>offset + max_size > file_size\<close> that
  guards the clamp is computed on unsigned 64 bits: when the sum wraps, the clamp is
  skipped and the loop runs with the length as given. For the file of 1 byte of the
  image, a read at offset 1 (the file size) of length \<open>2\<^sup>6\<^sup>4 - 1\<close> stores 1023 bytes of
  block 6 in the buffer, before the next read (at the end of the volume) ends the loop
  with the result 0.
\<close>

theorem read_file_content_overflowing_length:
  "inode_file_size demo_volume stale_inode = 1
   \<and> read_file_content demo_volume u stale_inode 1 0xFFFFFFFFFFFFFFFF []
       = Some (0, [66, 67, 68, 69, 70, 71, 72] @ replicate 1016 0,
               [Pread 6145 1023, Pread 10240 1024])"
proof
  show "inode_file_size demo_volume stale_inode = 1"
    by (simp add: ev)
  show "read_file_content demo_volume u stale_inode 1 0xFFFFFFFFFFFFFFFF []
       = Some (0, [66, 67, 68, 69, 70, 71, 72] @ replicate 1016 0,
               [Pread 6145 1023, Pread 10240 1024])"
    apply (simp add: read_file_content_def clamp_max_size_def)
    apply (simp add: ev)
    apply (subst read_file_content_loop.simps, simp add: ev)
    apply (subst read_file_content_loop.simps, simp add: ev)
    done
qed

text \<open>
  Where the sum does not wrap the function keeps within the file. What a block read
  returns and stores:
\<close>

lemma pread_result:
  assumes "pread dev buf count pos = (rv, buf')"
  shows "\<exists>got. buf' = overwrite buf got \<and> length got \<le> count
           \<and> (rv = int (length got) \<or> rv = - 1 \<and> got = [])"
proof (cases "dev_error dev")
  case True
  then have "rv = - 1" "buf' = overwrite buf []"
    using assms by (simp_all add: pread_def overwrite_def)
  then show ?thesis by (intro exI [of _ "[]"]) simp
next
  case False
  then have "rv = int (length (take count (drop pos (dev_data dev))))"
      "buf' = overwrite buf (take count (drop pos (dev_data dev)))"
    using assms by (simp_all add: pread_def Let_def)
  then show ?thesis by (intro exI [of _ "take count (drop pos (dev_data dev))"]) simp
qed

lemma read_block_result:
  assumes "read_block volume block_no offset sz buffer = (rv, buffer', tr)"
  shows "\<exists>got. buffer' = overwrite buffer got \<and> length got \<le> unat sz
           \<and> (rv = int (length got) \<or> rv = - 1 \<and> got = [])"
proof -
  have "pread (fd volume) buffer (unat sz) (unat (block_size volume * block_no + offset)) = (rv, buffer')"
    using assms by (simp add: read_block_def Let_def split: prod.splits)
  then show ?thesis by (rule pread_result)
qed

lemma read_file_block_result:
  assumes "read_file_block volume u inode offset max_size buffer = Some (rv, buffer', tr)"
  shows "\<exists>got. buffer' = overwrite buffer got \<and> length got \<le> unat max_size
           \<and> length got < 4294967296 \<and> (rv = int (length got) \<or> rv = - 1 \<and> got = [])"
proof -
  define bo where "bo = (ucast (offset mod ucast (block_size volume)) :: u32)"
  define sz where "sz = (if (ucast (block_size volume - bo) :: u64) < max_size
                         then block_size volume - bo else ucast max_size)"
  have bs: "block_size volume \<noteq> 0"
    using assms unfolding read_file_block_def by (cases "block_size volume = 0") simp_all
  have "Option.bind (get_inode_block_no volume u inode
            (scast (ucast (offset div ucast (block_size volume)) :: u32)))
          (\<lambda>(blockNo, t1). case read_block volume blockNo bo sz buffer of
               (rv', b', t2) \<Rightarrow> Some (rv', b', t1 @ t2)) = Some (rv, buffer', tr)"
    using assms bs unfolding read_file_block_def Let_def bo_def sz_def by simp
  then obtain blockNo t1 where
    "(case read_block volume blockNo bo sz buffer of
               (rv', b', t2) \<Rightarrow> Some (rv', b', t1 @ t2)) = Some (rv, buffer', tr)"
    by (auto simp: bind_eq_Some_conv)
  then obtain t2 where rb: "read_block volume blockNo bo sz buffer = (rv, buffer', t2)"
    by (cases "read_block volume blockNo bo sz buffer") auto
  obtain got where got: "buffer' = overwrite buffer got" "length got \<le> unat sz"
      "rv = int (length got) \<or> rv = - 1 \<and> got = []"
    using read_block_result [OF rb] by blast
  have sz: "unat sz \<le> unat max_size"
  proof (cases "(ucast (block_size volume - bo) :: u64) < max_size")
    case True
    then show ?thesis
      by (simp add: sz_def word_less_nat_alt unat_ucast_u32_u64)
  next
    case False
    then have "unat max_size \<le> unat (block_size volume - bo)"
      by (simp add: word_less_nat_alt unat_ucast_u32_u64)
    moreover have "unat (block_size volume - bo) < 2 ^ 32"
      using unsigned_less [of "block_size volume - bo", where 'a = nat] by simp
    ultimately have "unat max_size < 2 ^ 32" by linarith
    then have "unat (ucast max_size :: u32) = unat max_size"
      by (simp add: unsigned_ucast_eq take_bit_nat_eq_self)
    then show ?thesis using False by (simp add: sz_def)
  qed
  have lt: "unat sz < 4294967296"
    using unsigned_less [of sz, where 'a = nat] by simp
  have "length got \<le> unat max_size" "length got < 4294967296"
    using got(2) sz lt by linarith+
  then show ?thesis using got(1,3) by blast
qed

text \<open>Storing \<open>got\<close> at position \<open>k\<close> of a buffer leaves the buffer from \<open>n\<close> on as it was.\<close>

lemma store_within:
  assumes "k + length got \<le> n" and "n \<le> length buffer"
  shows "length (take k buffer @ overwrite (drop k buffer) got) = length buffer"
    and "drop n (take k buffer @ overwrite (drop k buffer) got) = drop n buffer"
proof -
  have k: "k \<le> length buffer" "length got \<le> length buffer - k"
    using assms by linarith+
  show "length (take k buffer @ overwrite (drop k buffer) got) = length buffer"
    using k by (simp add: overwrite_def)
  have "drop n (take k buffer @ overwrite (drop k buffer) got)
      = drop (n - (k + length got)) (drop (k + length got) buffer)"
    using k assms(1) by (simp add: overwrite_def add.commute)
  also have "\<dots> = drop n buffer"
    using assms(1) by simp
  finally show "drop n (take k buffer @ overwrite (drop k buffer) got) = drop n buffer" .
qed

lemma int_rv_cases:
  fixes r :: int
  assumes "- 1 \<le> r" and "r < 4294967296"
  shows "sint (word_of_int r :: 32 word) \<le> 0 \<or> sint (word_of_int r :: 32 word) = r"
proof (cases "r < 2147483648")
  case True
  then have "signed_take_bit 31 r = r"
    using assms(1) by (intro signed_take_bit_int_eq_self) simp_all
  then show ?thesis by (simp add: signed_of_int)
next
  case False
  then have "signed_take_bit 31 r \<le> r - 2 ^ Suc 31"
    by (intro signed_take_bit_int_less_eq) simp
  then show ?thesis using assms(2) by (simp add: signed_of_int)
qed

lemma unat_word_of_int_u32:
  fixes r :: int
  assumes "0 \<le> r" and "r < 4294967296"
  shows "unat (word_of_int r :: u32) = nat r"
proof -
  have "take_bit 32 r = r"
    using assms by (intro take_bit_int_eq_self) simp_all
  then show ?thesis
    by (simp add: unat_eq_nat_uint uint_word_of_int_eq)
qed

text \<open>
  The loop, started within a length that fits in 32 bits and in the buffer, returns at
  most that length and leaves the buffer beyond it as it was.
\<close>

lemma read_file_content_loop_bound:
  assumes "read_file_content_loop volume u inode offset max_size read_so_far buffer tr = Some y"
  shows "unat read_so_far \<le> unat max_size \<and> unat max_size < 2 ^ 32 \<and> unat max_size \<le> length buffer
    \<longrightarrow> fst y \<le> int (unat max_size) \<and> length (fst (snd y)) = length buffer
        \<and> drop (unat max_size) (fst (snd y)) = drop (unat max_size) buffer"
proof (rule read_file_content_loop.raw_induct
    [where P = "\<lambda>volume u inode offset max_size read_so_far buffer tr y.
        unat read_so_far \<le> unat max_size \<and> unat max_size < 2 ^ 32 \<and> unat max_size \<le> length buffer
        \<longrightarrow> fst y \<le> int (unat max_size) \<and> length (fst (snd y)) = length buffer
            \<and> drop (unat max_size) (fst (snd y)) = drop (unat max_size) buffer",
     OF _ assms])
  fix loop :: "volume_t \<Rightarrow> indet \<Rightarrow> inode_t \<Rightarrow> u64 \<Rightarrow> u64 \<Rightarrow> u32 \<Rightarrow> bytes \<Rightarrow> event list \<Rightarrow> (int \<times> bytes \<times> event list) option"
    and volume u inode offset max_size and read_so_far :: u32 and buffer tr y
  assume IH: "\<And>volume u inode offset max_size read_so_far buffer tr y.
      loop volume u inode offset max_size read_so_far buffer tr = Some y
      \<Longrightarrow> unat read_so_far \<le> unat max_size \<and> unat max_size < 2 ^ 32 \<and> unat max_size \<le> length buffer
        \<longrightarrow> fst y \<le> int (unat max_size) \<and> length (fst (snd y)) = length buffer
            \<and> drop (unat max_size) (fst (snd y)) = drop (unat max_size) buffer"
    and step: "(if ucast read_so_far < max_size then
        Option.bind (read_file_block volume u inode (offset + ucast read_so_far) (max_size - ucast read_so_far)
                       (drop (unat read_so_far) buffer))
          (\<lambda>(r, mem, t).
             let rv = sint (word_of_int r :: 32 word);
                 buffer' = take (unat read_so_far) buffer @ mem
             in if rv \<le> 0 then Some (rv, buffer', tr @ t)
                else loop volume u inode offset max_size
                       (read_so_far + word_of_int rv) buffer' (tr @ t))
      else Some (uint read_so_far, buffer, tr)) = Some y"
  show "unat read_so_far \<le> unat max_size \<and> unat max_size < 2 ^ 32 \<and> unat max_size \<le> length buffer
        \<longrightarrow> fst y \<le> int (unat max_size) \<and> length (fst (snd y)) = length buffer
            \<and> drop (unat max_size) (fst (snd y)) = drop (unat max_size) buffer"
  proof
    assume inv: "unat read_so_far \<le> unat max_size \<and> unat max_size < 2 ^ 32 \<and> unat max_size \<le> length buffer"
    show "fst y \<le> int (unat max_size) \<and> length (fst (snd y)) = length buffer
            \<and> drop (unat max_size) (fst (snd y)) = drop (unat max_size) buffer"
    proof (cases "ucast read_so_far < max_size")
      case False
      then have y: "y = (uint read_so_far, buffer, tr)"
        using step by simp
      then have "fst y = uint read_so_far"
        by simp
      also have "\<dots> = int (unat read_so_far)"
        by (rule uint_nat)
      finally have "fst y \<le> int (unat max_size)" using inv by linarith
      then show ?thesis using y by simp
    next
      case True
      then have "Option.bind (read_file_block volume u inode (offset + ucast read_so_far)
                       (max_size - ucast read_so_far) (drop (unat read_so_far) buffer))
          (\<lambda>(r, mem, t).
             if sint (word_of_int r :: 32 word) \<le> 0
             then Some (sint (word_of_int r :: 32 word), take (unat read_so_far) buffer @ mem, tr @ t)
             else loop volume u inode offset max_size
                    (read_so_far + word_of_int (sint (word_of_int r :: 32 word)))
                    (take (unat read_so_far) buffer @ mem) (tr @ t)) = Some y"
        using step by (simp add: Let_def)
      then obtain r mem t where
        rfb: "read_file_block volume u inode (offset + ucast read_so_far) (max_size - ucast read_so_far)
                (drop (unat read_so_far) buffer) = Some (r, mem, t)"
        and rest: "(if sint (word_of_int r :: 32 word) \<le> 0
             then Some (sint (word_of_int r :: 32 word), take (unat read_so_far) buffer @ mem, tr @ t)
             else loop volume u inode offset max_size
                    (read_so_far + word_of_int (sint (word_of_int r :: 32 word)))
                    (take (unat read_so_far) buffer @ mem) (tr @ t)) = Some y"
        by (auto simp: bind_eq_Some_conv)
      let ?rv = "sint (word_of_int r :: 32 word)"
      let ?buffer' = "take (unat read_so_far) buffer @ mem"
      obtain got where got: "mem = overwrite (drop (unat read_so_far) buffer) got"
          "length got \<le> unat (max_size - ucast read_so_far)" "length got < 4294967296"
          "r = int (length got) \<or> r = - 1 \<and> got = []"
        using read_file_block_result [OF rfb] by blast
      have le: "(ucast read_so_far :: u64) \<le> max_size"
        using True by simp
      have rem: "unat (max_size - ucast read_so_far) = unat max_size - unat read_so_far"
        using le by (simp add: unat_sub unat_ucast_u32_u64)
      have within: "unat read_so_far + length got \<le> unat max_size"
        using got(2) rem inv by linarith
      have len: "length ?buffer' = length buffer"
        and tail: "drop (unat max_size) ?buffer' = drop (unat max_size) buffer"
        unfolding got(1) using store_within [OF within] inv by simp_all
      have rb: "- 1 \<le> r" "r < 4294967296"
        using got(3,4) by auto
      show ?thesis
      proof (cases "?rv \<le> 0")
        case True
        then have y: "y = (?rv, ?buffer', tr @ t)" using rest by auto
        have "?rv \<le> int (unat max_size)"
          using True by linarith
        then have "fst y \<le> int (unat max_size)"
          by (simp only: y fst_conv)
        then show ?thesis using len tail by (simp add: y)
      next
        case False
        then have rv: "?rv = r" using int_rv_cases [OF rb] by blast
        have next_call: "loop volume u inode offset max_size (read_so_far + word_of_int r)
              ?buffer' (tr @ t) = Some y"
          using rest False rv by simp
        have rpos: "0 < r" using False rv by linarith
        then have r: "nat r = length got" using got(4) by auto
        have "unat (word_of_int r :: u32) = nat r"
          using rpos rb(2) by (intro unat_word_of_int_u32) simp_all
        moreover have "unat read_so_far + nat r < 2 ^ 32"
          using within r inv by linarith
        ultimately have "unat (read_so_far + word_of_int r) = unat read_so_far + length got"
          using r by (simp add: unat_add_lem [THEN iffD1])
        then show ?thesis using IH [OF next_call] within inv len tail by simp
      qed
    qed
  qed
qed

text \<open>
  For an offset within the file and a length whose sum with the offset does not wrap,
  \<^verbatim>\<open>read_file_content\<close> returns at most \<open>file_size - offset\<close> and stores no byte
  at or beyond that position of the buffer.
\<close>

theorem read_file_content_within_file:
  assumes "offset \<le> inode_file_size volume inode" and "unat offset + unat max_size < 2 ^ 64"
    and "unat max_size \<le> length buffer"
    and "read_file_content volume u inode offset max_size buffer = Some (rv, buffer', tr)"
    and n: "n = unat (inode_file_size volume inode) - unat offset"
  shows "rv \<le> int n \<and> length buffer' = length buffer \<and> drop n buffer' = drop n buffer"
proof -
  let ?fs = "inode_file_size volume inode"
  let ?c = "clamp_max_size volume inode offset max_size"
  have fs: "unat ?fs < 2 ^ 32"
    using unsigned_less [of "i_size inode", where 'a = nat]
    by (simp add: inode_file_size_def unat_ucast_u32_u64)
  have sum: "unat (offset + max_size) = unat offset + unat max_size"
    using assms(2) by (simp add: unat_add_lem [THEN iffD1])
  have c: "unat ?c \<le> n" "unat ?c \<le> unat max_size"
  proof -
    show "unat ?c \<le> n"
    proof (cases "?fs < offset + max_size")
      case True
      then show ?thesis using assms(1) by (simp add: clamp_max_size_def unat_sub n)
    next
      case False
      then have "unat offset + unat max_size \<le> unat ?fs"
        using sum by (simp add: word_less_nat_alt)
      then show ?thesis using False by (simp add: clamp_max_size_def n)
    qed
    show "unat ?c \<le> unat max_size"
    proof (cases "?fs < offset + max_size")
      case True
      then have "unat ?fs < unat offset + unat max_size"
        using sum by (simp add: word_less_nat_alt)
      then show ?thesis using True assms(1) by (simp add: clamp_max_size_def unat_sub)
    next
      case False
      then show ?thesis by (simp add: clamp_max_size_def)
    qed
  qed
  have inv: "unat (0 :: u32) \<le> unat ?c \<and> unat ?c < 2 ^ 32 \<and> unat ?c \<le> length buffer"
    using c fs assms(3) n by simp
  have r: "fst (rv, buffer', tr) \<le> int (unat ?c)
      \<and> length (fst (snd (rv, buffer', tr))) = length buffer
      \<and> drop (unat ?c) (fst (snd (rv, buffer', tr))) = drop (unat ?c) buffer"
    using read_file_content_loop_bound [OF assms(4) [unfolded read_file_content_def]] inv by blast
  then have rv: "rv \<le> int (unat ?c)" and len: "length buffer' = length buffer"
    and tail: "drop (unat ?c) buffer' = drop (unat ?c) buffer"
    by simp_all
  have "drop n buffer' = drop (n - unat ?c) (drop (unat ?c) buffer')"
    using c(1) by simp
  also have "\<dots> = drop (n - unat ?c) (drop (unat ?c) buffer)"
    by (simp only: tail)
  also have "\<dots> = drop n buffer"
    using c(1) by simp
  finally have "drop n buffer' = drop n buffer" .
  moreover have "rv \<le> int n"
    using rv c(1) by linarith
  ultimately show ?thesis using len by blast
qed

text \<open>At the end of the file it then returns 0 without a read.\<close>

lemma read_file_content_at_eof:
  assumes "offset = inode_file_size volume inode" and "unat offset + unat max_size < 2 ^ 64"
  shows "read_file_content volume u inode offset max_size buffer = Some (0, buffer, [])"
proof -
  have sum: "unat (offset + max_size) = unat offset + unat max_size"
    using assms(2) by (simp add: unat_add_lem [THEN iffD1])
  have "clamp_max_size volume inode offset max_size = 0"
  proof (cases "max_size = 0")
    case True
    then show ?thesis using assms(1) by (simp add: clamp_max_size_def)
  next
    case False
    then have "0 < unat max_size" by (simp add: unat_gt_0)
    then have "inode_file_size volume inode < offset + max_size"
      using sum assms(1) by (simp add: word_less_nat_alt)
    then show ?thesis using assms(1) by (simp add: clamp_max_size_def)
  qed
  then show ?thesis
    by (simp add: read_file_content_def) (subst read_file_content_loop.simps, simp)
qed

subsection \<open>C8: a visitor that asks to stop\<close>

text \<open>
  C8 says that when the visitor returns a non-zero value for an entry,
  \<^verbatim>\<open>follow_directory_entries\<close> stops at that entry and returns its inode number, for
  every value of the buffer argument, \<^verbatim>\<open>NULL\<close> included. The code tests
  \<^verbatim>\<open>f(...) != 0 && buffer != NULL\<close>: with a \<^verbatim>\<open>NULL\<close> buffer a non-zero result of
  the visitor is ignored. On the root directory of the image, with a visitor that
  returns 1 for every entry, a \<^verbatim>\<open>NULL\<close> buffer makes the function visit both entries
  and return 0; with a buffer it stops at the first entry and returns its inode number 2.
\<close>

theorem follow_directory_entries_null_buffer_ignores_stop:
  "follow_directory_entries demo_volume u root_inode context None (\<lambda>name inode_no context. 1)
     = Some (0, None, [Pread 5124 2, Pread 5120 12, Visit (map of_char ''.'') 2,
                       Pread 5132 12, Pread 5132 12, Visit (map of_char ''f'') 12])
   \<and> follow_directory_entries demo_volume u root_inode context (Some b) (\<lambda>name inode_no context. 1)
     = Some (2, Some (dot_entry @ drop 12 (newDirEntry0 u)),
             [Pread 5124 2, Pread 5120 12, Visit (map of_char ''.'') 2])"
  by (simp add: follow_demo_root [where tail = "[]", simplified])

text \<open>
  This holds for every volume, directory and visitor: with a \<^verbatim>\<open>NULL\<close> buffer the
  function, when it returns, returns 0.
\<close>

lemma follow_loop_null_buffer:
  assumes "follow_directory_entries_loop volume u inode context buffer f offset e tr = Some y"
  shows "buffer = None \<longrightarrow> fst y = 0 \<and> fst (snd y) = None"
proof (rule follow_directory_entries_loop.raw_induct
    [where P = "\<lambda>volume u inode context buffer f offset e tr y.
                  buffer = None \<longrightarrow> fst y = 0 \<and> fst (snd y) = None", OF _ assms])
  fix loop volume u inode ctx buffer f offset e tr y
  assume IH: "\<And>volume u inode ctx buffer f offset e tr y.
      loop volume u inode ctx buffer f offset e tr = Some y
      \<Longrightarrow> buffer = None \<longrightarrow> fst y = 0 \<and> fst (snd y) = None"
    and step: "(if offset < i_size inode then
        Option.bind (read_file_block volume u inode (scast offset) (ucast (de_rec_len e)) e)
          (\<lambda>(rv1, e1, t1).
        Option.bind (read_file_block volume u inode (scast offset) (ucast (de_rec_len e1)) e1)
          (\<lambda>(rv2, e2, t2).
             let tr' = tr @ t1 @ t2 @ [Visit (de_name e2) (de_inode_no e2)]
             in if f (de_name e2) (de_inode_no e2) ctx \<noteq> 0 \<and> buffer \<noteq> None
                then Some (de_inode_no e2, Some e2, tr')
                else loop volume u inode ctx buffer f (offset + ucast (de_rec_len e2)) e2 tr'))
      else Some (0, buffer, tr)) = Some y"
  show "buffer = None \<longrightarrow> fst y = 0 \<and> fst (snd y) = None"
    using step IH
    by (auto simp: Let_def split: if_splits prod.splits Option.bind_splits)
qed

lemma follow_directory_entries_null_buffer:
  assumes "follow_directory_entries volume u inode context None f = Some y"
  shows "fst y = 0 \<and> fst (snd y) = None"
  using assms
  by (auto simp: follow_directory_entries_def Let_def split: prod.splits Option.bind_splits
      dest!: follow_loop_null_buffer)

subsection \<open>C9: the error branch of \<^verbatim>\<open>read_ind_block_entry\<close>\<close>

text \<open>
  C9: in \<^verbatim>\<open>read_ind_block_entry\<close> the branch guarded by \<^verbatim>\<open>blockNum < 0\<close> is never
  taken, because \<^verbatim>\<open>blockNum\<close> is unsigned: for every volume, indirect block number
  and entry index the function returns what \<^verbatim>\<open>blockNum\<close> holds after the call of
  \<^verbatim>\<open>read_block\<close>, whatever that call returned. When the read delivers its four bytes,
  these are the four bytes of the entry in the volume file; when the read fails, the
  result is what the local held before, and not \<^verbatim>\<open>EXT2_INVALID_BLOCK_NUMBER\<close> by way
  of the error branch.
\<close>

theorem read_ind_block_entry_error_branch_dead:
  "fst (read_ind_block_entry volume u ind_block_no index)
     = le32 (fst (snd (read_block volume ind_block_no (index * 4) 4 (bytes_of_u32 (blockNum0 u))))) 0
   \<and> (dev_error (fd volume) \<longrightarrow>
        fst (read_ind_block_entry volume u ind_block_no index) = blockNum0 u)
   \<and> (\<not> dev_error (fd volume)
        \<and> unat (block_size volume * ind_block_no + index * 4) + 4 \<le> length (dev_data (fd volume)) \<longrightarrow>
        fst (read_ind_block_entry volume u ind_block_no index)
          = le32 (dev_data (fd volume)) (unat (block_size volume * ind_block_no + index * 4)))"
proof (intro conjI impI)
  show a: "fst (read_ind_block_entry volume u ind_block_no index)
     = le32 (fst (snd (read_block volume ind_block_no (index * 4) 4 (bytes_of_u32 (blockNum0 u))))) 0"
    by (simp add: read_ind_block_entry_def split: prod.splits)
  show "fst (read_ind_block_entry volume u ind_block_no index) = blockNum0 u"
    if "dev_error (fd volume)"
    unfolding a using that by (simp add: read_block_def pread_def le32_bytes_of_u32)
  show "fst (read_ind_block_entry volume u ind_block_no index)
          = le32 (dev_data (fd volume)) (unat (block_size volume * ind_block_no + index * 4))"
    if "\<not> dev_error (fd volume)
        \<and> unat (block_size volume * ind_block_no + index * 4) + 4 \<le> length (dev_data (fd volume))"
  proof -
    let ?pos = "unat (block_size volume * ind_block_no + index * 4)"
    let ?got = "take 4 (drop ?pos (dev_data (fd volume)))"
    have len: "length ?got = 4"
      using that by auto
    have "fst (snd (read_block volume ind_block_no (index * 4) 4 (bytes_of_u32 (blockNum0 u)))) = ?got"
      using that len by (simp add: read_block_def pread_def overwrite_def Let_def bytes_of_u32_def)
    then show ?thesis
      unfolding a using that le32_take_drop by simp
  qed
qed

text \<open>
  On the failing device the entry lookup returns the previous content 7 of the local; on
  the image, entry 1 of the double-indirect block 7 is 9.
\<close>

theorem read_ind_block_entry_error_branch_dead_witness:
  "dev_error (fd failing_volume)
   \<and> fst (read_ind_block_entry failing_volume demo_indet 7 1) = 7
   \<and> fst (read_ind_block_entry failing_volume demo_indet 7 1) \<noteq> EXT2_INVALID_BLOCK_NUMBER
   \<and> \<not> dev_error (fd demo_volume)
   \<and> unat (block_size demo_volume * 7 + 1 * 4) + 4 \<le> length (dev_data (fd demo_volume))
   \<and> fst (read_ind_block_entry demo_volume demo_indet 7 1) = 9"
proof -
  have f: "dev_error (fd failing_volume)"
    by (simp add: failing_volume_def)
  have j: "blockNum0 demo_indet = 7"
    by (simp add: demo_indet_def)
  have g: "\<not> dev_error (fd demo_volume)
      \<and> unat (block_size demo_volume * 7 + 1 * 4) + 4 \<le> length (dev_data (fd demo_volume))"
    by (simp add: demo_volume_def demo_device_def length_demo_image)
  have v: "le32 (dev_data (fd demo_volume)) (unat (block_size demo_volume * 7 + 1 * 4)) = 9"
    by (simp add: ev)
  have r1: "fst (read_ind_block_entry failing_volume demo_indet 7 1) = blockNum0 demo_indet"
    using read_ind_block_entry_error_branch_dead [of failing_volume demo_indet 7 1] f by blast
  have r2: "fst (read_ind_block_entry demo_volume demo_indet 7 1)
      = le32 (dev_data (fd demo_volume)) (unat (block_size demo_volume * 7 + 1 * 4))"
    using read_ind_block_entry_error_branch_dead [of demo_volume demo_indet 7 1] g by blast
  show ?thesis
    using f g r1 r2 j v by (simp add: EXT2_INVALID_BLOCK_NUMBER_def)
qed

subsection \<open>C10: an offset past the end of the file\<close>

text \<open>
  C10 as amended: for every inode and every call of \<^verbatim>\<open>read_file_content\<close> with an
  offset greater than the file size for which the sum \<open>offset + max_size\<close>, taken modulo
  \<open>2\<^sup>6\<^sup>4\<close> as line 294 computes it, is greater than the file size, the clamp
  \<^verbatim>\<open>max_size = file_size - offset\<close> is computed and wraps on unsigned 64 bits to
  \<open>2\<^sup>6\<^sup>4 - (offset - file_size)\<close>, which is not zero; the call does not return 0 or
  an error at once: its result is that of the read loop run with that length, which
  starts with a call of \<^verbatim>\<open>read_file_block\<close> at the offset bounded by that length
  and, when that call returns a positive count, goes on with the same length.
\<close>

theorem read_file_content_offset_past_eof:
  assumes "inode_file_size volume inode < offset"
    and "unat (inode_file_size volume inode) < (unat offset + unat max_size) mod 2 ^ 64"
  shows "clamp_max_size volume inode offset max_size = inode_file_size volume inode - offset
       \<and> unat (inode_file_size volume inode - offset)
           = 2 ^ 64 - (unat offset - unat (inode_file_size volume inode))
       \<and> inode_file_size volume inode - offset \<noteq> 0
       \<and> read_file_content volume u inode offset max_size buffer
           = Option.bind (read_file_block volume u inode offset (inode_file_size volume inode - offset) buffer)
               (\<lambda>(r, mem, t). let rv = sint (word_of_int r :: 32 word) in
                   if rv \<le> 0 then Some (rv, mem, t)
                   else read_file_content_loop volume u inode offset
                          (inode_file_size volume inode - offset) (word_of_int rv) mem t)"
proof -
  let ?fs = "inode_file_size volume inode"
  have lt: "unat ?fs < unat offset"
    using assms(1) by (simp add: word_less_nat_alt)
  have sum: "unat (offset + max_size) = (unat offset + unat max_size) mod 2 ^ 64"
    by (simp add: unat_word_ariths)
  have guard: "?fs < offset + max_size"
    using assms(2) sum by (simp add: word_less_nat_alt)
  have clamp: "clamp_max_size volume inode offset max_size = ?fs - offset"
    using guard by (simp add: clamp_max_size_def)
  have val: "unat (?fs - offset) = 2 ^ 64 - (unat offset - unat ?fs)"
    using lt unsigned_less [of offset, where 'a = nat] by (simp add: unat_sub_if_size word_size)
  have nz: "0 < ?fs - offset"
    using assms(1) by (simp add: word_gt_0)
  have ne: "?fs - offset \<noteq> 0"
    using assms(1) by auto
  have "read_file_content volume u inode offset max_size buffer
          = read_file_content_loop volume u inode offset (?fs - offset) 0 buffer []"
    by (simp add: read_file_content_def clamp)
  also have "\<dots> = Option.bind (read_file_block volume u inode offset (?fs - offset) buffer)
               (\<lambda>(r, mem, t). let rv = sint (word_of_int r :: 32 word) in
                   if rv \<le> 0 then Some (rv, mem, t)
                   else read_file_content_loop volume u inode offset (?fs - offset) (word_of_int rv) mem t)"
    by (subst read_file_content_loop.simps) (use nz in \<open>simp cong: if_cong\<close>)
  finally show ?thesis
    using clamp val ne by simp
qed

text \<open>
  The condition on the sum is the test of line 294. Past the end of the file it holds
  whenever \<open>offset + max_size\<close> does not wrap.
\<close>

lemma sum_without_wrap_exceeds_file_size:
  fixes file_size offset max_size :: u64
  assumes "file_size < offset" and "unat offset + unat max_size < 2 ^ 64"
  shows "unat file_size < (unat offset + unat max_size) mod 2 ^ 64"
  using assms by (simp add: word_less_nat_alt)

text \<open>
  C10 as stated, for every call with an offset past the end of the file, fails where
  \<open>offset + max_size\<close> wraps to a value that is not above the file size: for the file of
  4 bytes, offset \<open>2\<^sup>6\<^sup>4 - 1\<close> and length 1 the sum is 0, the assignment of line 295 is
  not executed and the length stays 1, which is not \<open>file_size - offset\<close>. Nor is
  \<open>file_size - offset\<close> near \<open>2\<^sup>6\<^sup>4\<close> at such an offset: here it is 5.
\<close>

theorem read_file_content_clamp_skipped_on_wrap:
  "inode_file_size demo_volume file_inode < 0xFFFFFFFFFFFFFFFF
   \<and> clamp_max_size demo_volume file_inode 0xFFFFFFFFFFFFFFFF 1
       \<noteq> inode_file_size demo_volume file_inode - 0xFFFFFFFFFFFFFFFF
   \<and> inode_file_size demo_volume file_inode - 0xFFFFFFFFFFFFFFFF = 5"
  by (simp add: clamp_max_size_def) (simp add: ev)

text \<open>
  A read of 8 bytes at offset 5 of the file of 1 byte: the length becomes \<open>2\<^sup>6\<^sup>4 - 4\<close>,
  the first block read stores 1019 bytes of block 6 through the buffer of 8 bytes, and
  the second, at the end of the volume, returns 0. And a call whose sum wraps and stays
  above the file size: for the file of 4 bytes, offset \<open>2\<^sup>6\<^sup>4 - 1\<close> and length
  \<open>2\<^sup>3\<^sup>2 + 5\<close> the sum is \<open>2\<^sup>3\<^sup>2 + 4\<close>, and the length becomes 5.
\<close>

theorem read_file_content_offset_past_eof_witness:
  "inode_file_size demo_volume stale_inode < 5
   \<and> unat (inode_file_size demo_volume stale_inode) < (unat (5 :: u64) + unat (8 :: u64)) mod 2 ^ 64
   \<and> clamp_max_size demo_volume stale_inode 5 8 = 0xFFFFFFFFFFFFFFFC
   \<and> read_file_content demo_volume demo_indet stale_inode 5 8 [0, 0, 0, 0, 0, 0, 0, 0]
       = Some (0, [70, 71, 72] @ replicate 1016 0, [Pread 6149 1019, Pread 10240 1024])
   \<and> inode_file_size demo_volume file_inode < 0xFFFFFFFFFFFFFFFF
   \<and> unat (inode_file_size demo_volume file_inode)
       < (unat (0xFFFFFFFFFFFFFFFF :: u64) + unat (0x100000005 :: u64)) mod 2 ^ 64
   \<and> clamp_max_size demo_volume file_inode 0xFFFFFFFFFFFFFFFF 0x100000005 = 5"
proof -
  have a: "inode_file_size demo_volume stale_inode < 5"
    by (simp add: ev)
  have b: "unat (inode_file_size demo_volume stale_inode) < (unat (5 :: u64) + unat (8 :: u64)) mod 2 ^ 64"
    by (simp add: ev)
  have c: "inode_file_size demo_volume stale_inode - 5 = 0xFFFFFFFFFFFFFFFC"
    by (simp add: ev)
  have first: "read_file_block demo_volume demo_indet stale_inode 5 0xFFFFFFFFFFFFFFFC
        [0, 0, 0, 0, 0, 0, 0, 0]
      = Some (1019, [70, 71, 72] @ replicate 1016 0, [Pread 6149 1019])"
    by (simp add: ev)
  have rest: "read_file_content_loop demo_volume demo_indet stale_inode 5 0xFFFFFFFFFFFFFFFC 1019
        ([70, 71, 72] @ replicate 1016 0) [Pread 6149 1019]
      = Some (0, [70, 71, 72] @ replicate 1016 0, [Pread 6149 1019, Pread 10240 1024])"
    by (subst read_file_content_loop.simps) (simp add: ev)
  have d: "inode_file_size demo_volume file_inode < 0xFFFFFFFFFFFFFFFF"
    by (simp add: ev)
  have e: "unat (inode_file_size demo_volume file_inode)
       < (unat (0xFFFFFFFFFFFFFFFF :: u64) + unat (0x100000005 :: u64)) mod 2 ^ 64"
    by (simp add: ev)
  have f: "inode_file_size demo_volume file_inode - 0xFFFFFFFFFFFFFFFF = 5"
    by (simp add: ev)
  show ?thesis
    using a b c first rest d e f
      read_file_content_offset_past_eof [OF a b, of demo_indet "[0, 0, 0, 0, 0, 0, 0, 0]"]
      read_file_content_offset_past_eof [OF d e]
    by simp
qed

end
